theory Spec2Isabelle
  imports Main "HOL-Library.Word"
begin

section \<open>JavaScript values the adapter handles\<close>

text \<open>
  A JavaScript string is a sequence of UTF-16 code units. The numbers the virtual machine
  passes (character codes, offsets, lengths, rocks) are integers; the values found in
  arrays and in the fields of a \<open>RefStruct\<close> are numbers, \<open>undefined\<close> (a hole, or a read
  out of range) or a reference to a window object.
\<close>

type_synonym jsstring = "16 word list"

datatype jsval = Undefined | Num int | WindowRef nat

datatype js_error = RangeError | TypeError

text \<open>The truthiness test \<open>if (v)\<close> and the defaulting \<open>v || d\<close>.\<close>

definition truthy :: "jsval \<Rightarrow> bool" where
  "truthy v = (case v of Undefined \<Rightarrow> False | Num n \<Rightarrow> n \<noteq> 0 | WindowRef w \<Rightarrow> True)"

text \<open>
  \<open>String.fromCharCode(v)\<close>: one code unit, the number reduced modulo \<open>2^16\<close>; a value
  that is not a number converts to NaN and gives the code unit 0.
\<close>

definition fromCharCode :: "jsval \<Rightarrow> jsstring" where
  "fromCharCode v = (case v of Num n \<Rightarrow> [word_of_int n] | _ \<Rightarrow> [0])"

text \<open>
  \<open>String.fromCodePoint(v)\<close>: throws a RangeError (here \<open>None\<close>) unless the value is an
  integer in \<open>[0, 0x10FFFF]\<close>; a code point above \<open>0xFFFF\<close> gives a surrogate pair.
\<close>

definition fromCodePoint :: "jsval \<Rightarrow> jsstring option" where
  "fromCodePoint v = (case v of
       Num cp \<Rightarrow>
         if cp < 0 \<or> 0x10FFFF < cp then None
         else if cp \<le> 0xFFFF then Some [word_of_int cp]
         else Some [word_of_int (0xD800 + (cp - 0x10000) div 0x400),
                    word_of_int (0xDC00 + (cp - 0x10000) mod 0x400)]
     | _ \<Rightarrow> None)"

text \<open>\<open>text.charCodeAt(i)\<close> for every \<open>i\<close> below \<open>text.length\<close>, in order.\<close>

definition charCodes :: "jsstring \<Rightarrow> jsval list" where
  "charCodes s = map (\<lambda>w. Num (uint w)) s"

text \<open>The code units of an ASCII literal of the source.\<close>

definition literal :: "string \<Rightarrow> jsstring" where
  "literal s = map (\<lambda>c. of_nat (of_char c)) s"

subsection \<open>Arrays\<close>

text \<open>
  \<open>xs[i]\<close> reads \<open>undefined\<close> out of range. \<open>xs[i] = v\<close> on an array stores within range,
  extends the array (leaving holes) at or beyond its length, and at a negative index sets
  a property that is no element: the element sequence and its length stay as they are.
\<close>

definition array_get :: "jsval list \<Rightarrow> int \<Rightarrow> jsval" where
  "array_get xs i = (if 0 \<le> i \<and> i < int (length xs) then xs ! nat i else Undefined)"

definition array_set :: "jsval list \<Rightarrow> int \<Rightarrow> jsval \<Rightarrow> jsval list" where
  "array_set xs i v =
     (if i < 0 then xs
      else if i < int (length xs) then xs[nat i := v]
      else xs @ replicate (nat i - length xs) Undefined @ [v])"

section \<open>Glk constants\<close>

definition evtype_None :: int where "evtype_None = 0"
definition evtype_CharInput :: int where "evtype_CharInput = 2"
definition evtype_LineInput :: int where "evtype_LineInput = 3"

definition wintype_TextBuffer :: int where "wintype_TextBuffer = 3"
definition wintype_TextGrid :: int where "wintype_TextGrid = 4"

definition filemode_Write :: int where "filemode_Write = 0x01"
definition filemode_Read :: int where "filemode_Read = 0x02"
definition filemode_ReadWrite :: int where "filemode_ReadWrite = 0x03"

definition seekmode_Start :: int where "seekmode_Start = 0"
definition seekmode_Current :: int where "seekmode_Current = 1"
definition seekmode_End :: int where "seekmode_End = 2"

definition gestalt_CharOutput :: int where "gestalt_CharOutput = 2"
definition gestalt_CharOutput_ExactPrint :: int where "gestalt_CharOutput_ExactPrint = 2"
definition gestalt_LineInput :: int where "gestalt_LineInput = 3"
definition gestalt_Unicode :: int where "gestalt_Unicode = 15"

lemmas glk_constants =
  evtype_None_def evtype_CharInput_def evtype_LineInput_def
  wintype_TextBuffer_def wintype_TextGrid_def
  filemode_Write_def filemode_Read_def filemode_ReadWrite_def
  seekmode_Start_def seekmode_Current_def seekmode_End_def
  gestalt_CharOutput_def gestalt_CharOutput_ExactPrint_def
  gestalt_LineInput_def gestalt_Unicode_def

section \<open>The adapter's objects\<close>

text \<open>
  A file reference as \<open>glk_fileref_create_by_prompt\<close> and \<open>glk_fileref_create_by_name\<close>
  build it; the second leaves \<open>fmode\<close> out.
\<close>

record fileref =
  fref_rock :: int
  usage :: int
  fref_fmode :: "int option"
  filename :: jsstring

text \<open>
  The object of \<open>createStream\<close>, with the properties the open functions add. \<open>buf\<close> refers
  to an array owned by the virtual machine; \<open>buflen\<close> is read only where \<open>buf\<close> is set.
  \<open>data\<close> is an array throughout, so the test \<open>str.data\<close> of the source always succeeds.
\<close>

record stream =
  rock :: int
  write_count :: int
  read_count :: int
  data :: "jsval list"
  pos :: int
  buf :: "nat option"
  buflen :: int
  fref :: "fileref option"
  fmode :: "int option"

datatype request_type = ReqLine | ReqChar

record window =
  wintype :: int
  wrock :: int
  str :: nat
  input_request_type :: "request_type option"
  line_input_buf :: "nat option"

record input_state =
  buffer :: "nat option"
  maxLen :: int
  pending :: bool
  event :: "nat option"

text \<open>
  The calls the presentation capability receives, in order, and the one callback it
  holds: every callback \<open>_request_line\<close> registers is the same closure over the adapter's
  shared \<open>inputState\<close>.
\<close>

datatype terminal_call = Print jsstring | Clear | HandleError jsstring

datatype callback = LineInputCallback

text \<open>
  The state \<open>createGlk\<close> closes over: its own variables, then what its functions reach
  outside it. A window or stream is referred to by its index in \<open>windows\<close> or \<open>streams\<close>
  (objects are pushed there on creation and never removed), an array or a \<open>RefStruct\<close> or
  \<open>RefBox\<close> of the virtual machine by its address.
\<close>

record glk =
  outputBuffer :: jsstring
  windows :: "window list"
  streams :: "stream list"
  currentStream :: nat
  inputState :: input_state
  arrays :: "nat \<Rightarrow> jsval list"
  refstructs :: "nat \<Rightarrow> jsval list"
  refboxes :: "nat \<Rightarrow> jsval"
  terminal :: "terminal_call list"
  inputResolver :: "callback option"
  localStorage :: "jsstring \<rightharpoonup> jsstring"

subsection \<open>RefStruct and RefBox\<close>

definition RefStruct_new :: "jsval list" where
  "RefStruct_new = [Num 0, Num 0, Num 0, Num 0]"

definition push_field :: "jsval list \<Rightarrow> jsval \<Rightarrow> jsval list" where
  "push_field fs v = fs @ [v]"

definition get_field :: "jsval list \<Rightarrow> int \<Rightarrow> jsval" where
  "get_field fs idx = (let v = array_get fs idx in if truthy v then v else Num 0)"

definition set_field :: "glk \<Rightarrow> nat \<Rightarrow> int \<Rightarrow> jsval \<Rightarrow> glk" where
  "set_field g r idx v = g\<lparr>refstructs := (refstructs g)(r := array_set (refstructs g r) idx v)\<rparr>"

definition set_value :: "glk \<Rightarrow> nat \<Rightarrow> jsval \<Rightarrow> glk" where
  "set_value g r v = g\<lparr>refboxes := (refboxes g)(r := v)\<rparr>"

subsection \<open>The presentation capability\<close>

definition terminal_print :: "glk \<Rightarrow> jsstring \<Rightarrow> glk" where
  "terminal_print g t = g\<lparr>terminal := terminal g @ [Print t]\<rparr>"

definition terminal_clear :: "glk \<Rightarrow> glk" where
  "terminal_clear g = g\<lparr>terminal := terminal g @ [Clear]\<rparr>"

definition terminal_handleError :: "glk \<Rightarrow> jsstring \<Rightarrow> glk" where
  "terminal_handleError g t = g\<lparr>terminal := terminal g @ [HandleError t]\<rparr>"

definition waitForInput :: "glk \<Rightarrow> callback \<Rightarrow> glk" where
  "waitForInput g cb = g\<lparr>inputResolver := Some cb\<rparr>"

subsection \<open>Construction\<close>

text \<open>A rock is a number here, so \<open>rock || 0\<close> is the rock itself.\<close>

definition createStream :: "glk \<Rightarrow> int \<Rightarrow> nat \<times> glk" where
  "createStream g r =
     (length (streams g),
      g\<lparr>streams := streams g @
          [\<lparr>rock = r, write_count = 0, read_count = 0, data = [], pos = 0,
            buf = None, buflen = 0, fref = None, fmode = None\<rparr>]\<rparr>)"

definition createWindow :: "glk \<Rightarrow> int \<Rightarrow> int \<Rightarrow> nat \<times> glk" where
  "createWindow g ty r =
     (let (s, g1) = createStream g r
      in (length (windows g1),
          g1\<lparr>windows := windows g1 @
              [\<lparr>wintype = ty, wrock = r, str = s,
                input_request_type = None, line_input_buf = None\<rparr>]\<rparr>))"

definition mainWindow :: nat where "mainWindow = 0"
definition mainStream :: nat where "mainStream = 0"

text \<open>
  \<open>createGlk\<close>, given the memory of the virtual machine and the host's store as they are
  when the adapter is built.
\<close>

definition createGlk ::
  "(nat \<Rightarrow> jsval list) \<Rightarrow> (nat \<Rightarrow> jsval list) \<Rightarrow> (jsstring \<rightharpoonup> jsstring) \<Rightarrow> glk" where
  "createGlk arrs rss store =
     (let g0 = \<lparr>outputBuffer = [], windows = [], streams = [], currentStream = 0,
                inputState = \<lparr>buffer = None, maxLen = 0, pending = False, event = None\<rparr>,
                arrays = arrs, refstructs = rss, refboxes = (\<lambda>_. Num 0),
                terminal = [], inputResolver = None, localStorage = store\<rparr>;
          (w, g1) = createWindow g0 wintype_TextBuffer 201
      in g1\<lparr>currentStream := str (windows g1 ! w)\<rparr>)"

section \<open>Capability queries\<close>

definition glk_gestalt :: "int \<Rightarrow> jsval \<Rightarrow> int" where
  "glk_gestalt sel val =
     (if sel = gestalt_CharOutput then gestalt_CharOutput_ExactPrint
      else if sel = gestalt_LineInput then 1
      else if sel = gestalt_Unicode then 1
      else if sel = 0x1100 then 0
      else 0)"

definition glk_gestalt_ext :: "int \<Rightarrow> jsval \<Rightarrow> jsval list \<Rightarrow> int" where
  "glk_gestalt_ext sel val arr = glk_gestalt sel val"

section \<open>Access to the adapter's objects\<close>

definition update_stream :: "glk \<Rightarrow> nat \<Rightarrow> (stream \<Rightarrow> stream) \<Rightarrow> glk" where
  "update_stream g s f = g\<lparr>streams := (streams g)[s := f (streams g ! s)]\<rparr>"

definition update_window :: "glk \<Rightarrow> nat \<Rightarrow> (window \<Rightarrow> window) \<Rightarrow> glk" where
  "update_window g w f = g\<lparr>windows := (windows g)[w := f (windows g ! w)]\<rparr>"

definition store_array :: "glk \<Rightarrow> nat \<Rightarrow> int \<Rightarrow> jsval \<Rightarrow> glk" where
  "store_array g b i v = g\<lparr>arrays := (arrays g)(b := array_set (arrays g b) i v)\<rparr>"

definition append_output :: "glk \<Rightarrow> jsstring \<Rightarrow> glk" where
  "append_output g t = g\<lparr>outputBuffer := outputBuffer g @ t\<rparr>"

text \<open>Every array, the empty one too, passes the test \<open>if (str.data)\<close>.\<close>

definition array_truthy :: "jsval list \<Rightarrow> bool" where
  "array_truthy xs = True"

text \<open>
  The block \<open>if (outputBuffer) { terminal.print(outputBuffer); outputBuffer = ''; }\<close>, which
  the source repeats in \<open>glk_exit\<close>, \<open>_request_line\<close>, \<open>glk_request_char_event\<close> and \<open>update\<close>.
\<close>

definition flush_output :: "glk \<Rightarrow> glk" where
  "flush_output g =
     (if outputBuffer g \<noteq> [] then (terminal_print g (outputBuffer g))\<lparr>outputBuffer := []\<rparr>
      else g)"

section \<open>The Glk call surface\<close>

definition fatal_error :: "glk \<Rightarrow> jsstring \<Rightarrow> glk" where
  "fatal_error g msg = terminal_handleError g msg"

definition session_ended :: jsstring where
  "session_ended = literal (CHR 0x0A # ''*** Game session ended ***'')"

definition glk_exit :: "glk \<Rightarrow> glk" where
  "glk_exit g = terminal_print (flush_output g) session_ended"

subsection \<open>Windows\<close>

definition glk_window_open :: "glk \<Rightarrow> int \<Rightarrow> int \<Rightarrow> int \<Rightarrow> int \<Rightarrow> int \<Rightarrow> nat \<times> glk" where
  "glk_window_open g splitwin method sz wt r = createWindow g wt r"

definition glk_window_close :: "glk \<Rightarrow> nat \<Rightarrow> nat option \<Rightarrow> glk" where
  "glk_window_close g win result =
     (case result of
        None \<Rightarrow> g
      | Some r \<Rightarrow>
          let st = streams g ! str (windows g ! win);
              g1 = set_field g r 0 (Num (read_count st))
          in set_field g1 r 1 (Num (write_count st)))"

definition glk_window_get_stream :: "glk \<Rightarrow> nat option \<Rightarrow> nat" where
  "glk_window_get_stream g win = (case win of Some w \<Rightarrow> str (windows g ! w) | None \<Rightarrow> mainStream)"

definition glk_window_clear :: "glk \<Rightarrow> nat option \<Rightarrow> glk" where
  "glk_window_clear g win =
     (case win of
        Some w \<Rightarrow> if wintype (windows g ! w) = wintype_TextBuffer then terminal_clear g else g
      | None \<Rightarrow> g)"

definition glk_set_window :: "glk \<Rightarrow> nat option \<Rightarrow> glk" where
  "glk_set_window g win =
     (case win of Some w \<Rightarrow> g\<lparr>currentStream := str (windows g ! w)\<rparr> | None \<Rightarrow> g)"

definition glk_window_get_size :: "glk \<Rightarrow> nat \<Rightarrow> nat option \<Rightarrow> nat option \<Rightarrow> glk" where
  "glk_window_get_size g win widthref heightref =
     (let g1 = (case widthref of Some r \<Rightarrow> set_value g r (Num 80) | None \<Rightarrow> g)
      in case heightref of Some r \<Rightarrow> set_value g1 r (Num 24) | None \<Rightarrow> g1)"

definition glk_window_move_cursor :: "glk \<Rightarrow> nat \<Rightarrow> int \<Rightarrow> int \<Rightarrow> glk" where
  "glk_window_move_cursor g win x y = g"

definition glk_window_get_parent :: "glk \<Rightarrow> nat \<Rightarrow> nat" where
  "glk_window_get_parent g win = mainWindow"

definition glk_window_set_arrangement :: "glk \<Rightarrow> nat \<Rightarrow> int \<Rightarrow> int \<Rightarrow> nat option \<Rightarrow> glk" where
  "glk_window_set_arrangement g win method sz keywin = g"

definition glk_window_iterate :: "glk \<Rightarrow> nat option \<Rightarrow> nat option \<Rightarrow> nat option" where
  "glk_window_iterate g win rockbox = None"

subsection \<open>Streams\<close>

definition glk_stream_set_current :: "glk \<Rightarrow> nat option \<Rightarrow> glk" where
  "glk_stream_set_current g s =
     g\<lparr>currentStream := (case s of Some s' \<Rightarrow> s' | None \<Rightarrow> mainStream)\<rparr>"

definition glk_stream_get_current :: "glk \<Rightarrow> nat" where
  "glk_stream_get_current g = currentStream g"

text \<open>
  \<open>JSON.parse\<close> and \<open>JSON.stringify\<close> belong to the host. They are parameters of the two
  functions that call them: \<open>parse\<close> gives \<open>None\<close> where \<open>JSON.parse\<close> throws, and an array
  otherwise (a stored text that parses to something that is no array is outside this model).
  \<open>localStorage.getItem\<close> gives \<open>null\<close> for a missing key, and \<open>if (saved)\<close> also fails on
  the empty string.
\<close>

definition glk_stream_open_file ::
  "(jsstring \<Rightarrow> jsval list option) \<Rightarrow> glk \<Rightarrow> fileref \<Rightarrow> int \<Rightarrow> int \<Rightarrow> nat \<times> glk" where
  "glk_stream_open_file parse g fr fm r =
     (let (s, g1) = createStream g r;
          g2 = update_stream g1 s (\<lambda>st. st\<lparr>fref := Some fr, fmode := Some fm\<rparr>);
          g3 = (if fm = filemode_Read \<or> fm = filemode_ReadWrite then
                  (case localStorage g2 (filename fr) of
                     None \<Rightarrow> g2
                   | Some saved \<Rightarrow>
                       if saved \<noteq> [] then
                         (case parse saved of
                            Some d \<Rightarrow> update_stream g2 s (\<lambda>st. st\<lparr>data := d\<rparr>)
                          | None \<Rightarrow> update_stream g2 s (\<lambda>st. st\<lparr>data := []\<rparr>))
                       else g2)
                else g2)
      in (s, g3))"

definition glk_stream_open_file_uni ::
  "(jsstring \<Rightarrow> jsval list option) \<Rightarrow> glk \<Rightarrow> fileref \<Rightarrow> int \<Rightarrow> int \<Rightarrow> nat \<times> glk" where
  "glk_stream_open_file_uni parse g fr fm r = glk_stream_open_file parse g fr fm r"

definition glk_stream_open_memory :: "glk \<Rightarrow> nat option \<Rightarrow> int \<Rightarrow> int \<Rightarrow> int \<Rightarrow> nat \<times> glk" where
  "glk_stream_open_memory g b bl fm r =
     (let (s, g1) = createStream g r
      in (s, update_stream g1 s (\<lambda>st. st\<lparr>buf := b, buflen := bl, fmode := Some fm\<rparr>)))"

definition glk_stream_open_memory_uni :: "glk \<Rightarrow> nat option \<Rightarrow> int \<Rightarrow> int \<Rightarrow> int \<Rightarrow> nat \<times> glk" where
  "glk_stream_open_memory_uni g b bl fm r = glk_stream_open_memory g b bl fm r"

definition glk_stream_close ::
  "(jsval list \<Rightarrow> jsstring) \<Rightarrow> glk \<Rightarrow> nat \<Rightarrow> nat option \<Rightarrow> glk" where
  "glk_stream_close stringify g s result =
     (let st = streams g ! s;
          g1 = (case result of
                  None \<Rightarrow> g
                | Some r \<Rightarrow> set_field (set_field g r 0 (Num (read_count st))) r 1 (Num (write_count st)))
      in case fref st of
           Some fr \<Rightarrow>
             if fmode st = Some filemode_Write \<or> fmode st = Some filemode_ReadWrite
             then g1\<lparr>localStorage := (localStorage g1)(filename fr \<mapsto> stringify (data st))\<rparr>
             else g1
         | None \<Rightarrow> g1)"

definition glk_stream_iterate :: "glk \<Rightarrow> nat option \<Rightarrow> nat option \<Rightarrow> nat option" where
  "glk_stream_iterate g s rockbox = None"

definition glk_stream_set_position :: "glk \<Rightarrow> nat \<Rightarrow> int \<Rightarrow> int \<Rightarrow> glk" where
  "glk_stream_set_position g s p seekmode =
     (if seekmode = seekmode_Start then update_stream g s (\<lambda>st. st\<lparr>pos := p\<rparr>)
      else if seekmode = seekmode_Current then update_stream g s (\<lambda>st. st\<lparr>pos := pos st + p\<rparr>)
      else if seekmode = seekmode_End then
        update_stream g s
          (\<lambda>st. st\<lparr>pos := (if array_truthy (data st) then int (length (data st)) else 0) + p\<rparr>)
      else g)"

definition glk_stream_get_position :: "glk \<Rightarrow> nat \<Rightarrow> int" where
  "glk_stream_get_position g s = pos (streams g ! s)"

subsection \<open>Output\<close>

definition glk_put_char :: "glk \<Rightarrow> int \<Rightarrow> glk" where
  "glk_put_char g ch = append_output g (fromCharCode (Num ch))"

definition glk_put_char_stream :: "glk \<Rightarrow> nat \<Rightarrow> int \<Rightarrow> glk" where
  "glk_put_char_stream g s ch =
     (let st = streams g ! s;
          g1 = (if s = mainStream \<or> s = currentStream g then
                  append_output g (fromCharCode (Num ch))
                else
                  (case buf st of
                     Some b \<Rightarrow>
                       if pos st < buflen st then
                         update_stream (store_array g b (pos st) (Num ch)) s
                           (\<lambda>st. st\<lparr>pos := pos st + 1\<rparr>)
                       else g
                   | None \<Rightarrow>
                       if array_truthy (data st) then
                         update_stream g s (\<lambda>st. st\<lparr>data := data st @ [Num ch]\<rparr>)
                       else g))
      in update_stream g1 s (\<lambda>st. st\<lparr>write_count := write_count st + 1\<rparr>))"

definition glk_put_string :: "glk \<Rightarrow> jsstring \<Rightarrow> glk" where
  "glk_put_string g t = append_output g t"

definition glk_put_string_stream :: "glk \<Rightarrow> nat \<Rightarrow> jsstring \<Rightarrow> glk" where
  "glk_put_string_stream g s t =
     (let st = streams g ! s;
          g1 = (if s = mainStream \<or> s = currentStream g then append_output g t
                else if array_truthy (data st) then
                  update_stream g s (\<lambda>st. st\<lparr>data := data st @ charCodes t\<rparr>)
                else g)
      in update_stream g1 s (\<lambda>st. st\<lparr>write_count := write_count st + int (length t)\<rparr>))"

text \<open>The loop \<open>for (i ...) outputBuffer += String.fromCharCode(buf[i])\<close>.\<close>

primrec put_buffer_loop :: "glk \<Rightarrow> jsval list \<Rightarrow> glk" where
  "put_buffer_loop g [] = g"
| "put_buffer_loop g (x # xs) = put_buffer_loop (append_output g (fromCharCode x)) xs"

definition glk_put_buffer :: "glk \<Rightarrow> jsval list \<Rightarrow> glk" where
  "glk_put_buffer g b = put_buffer_loop g b"

text \<open>The loop \<open>for (i ...) str.data.push(buf[i])\<close>.\<close>

primrec push_loop :: "glk \<Rightarrow> nat \<Rightarrow> jsval list \<Rightarrow> glk" where
  "push_loop g s [] = g"
| "push_loop g s (x # xs) =
     push_loop (update_stream g s (\<lambda>st. st\<lparr>data := data st @ [x]\<rparr>)) s xs"

text \<open>
  The loop \<open>for (i = 0; i < buf.length && str.pos < str.buflen; i++) str.buf[str.pos++] = buf[i]\<close>
  into the bound array \<open>b\<close>.
\<close>

primrec fill_loop :: "glk \<Rightarrow> nat \<Rightarrow> nat \<Rightarrow> jsval list \<Rightarrow> glk" where
  "fill_loop g s b [] = g"
| "fill_loop g s b (x # xs) =
     (let st = streams g ! s
      in if pos st < buflen st then
           fill_loop (update_stream (store_array g b (pos st) x) s (\<lambda>st. st\<lparr>pos := pos st + 1\<rparr>))
             s b xs
         else g)"

definition glk_put_buffer_stream :: "glk \<Rightarrow> nat \<Rightarrow> jsval list \<Rightarrow> glk" where
  "glk_put_buffer_stream g s b =
     (let st = streams g ! s;
          g1 = (if s = mainStream \<or> s = currentStream g then put_buffer_loop g b
                else if array_truthy (data st) then push_loop g s b
                else (case buf st of Some a \<Rightarrow> fill_loop g s a b | None \<Rightarrow> g))
      in update_stream g1 s (\<lambda>st. st\<lparr>write_count := write_count st + int (length b)\<rparr>))"

text \<open>
  The Unicode forms. \<open>String.fromCodePoint\<close> can throw: the result pairs the error, if
  any, with the state the adapter is left in.
\<close>

definition glk_put_char_uni :: "glk \<Rightarrow> int \<Rightarrow> js_error option \<times> glk" where
  "glk_put_char_uni g ch =
     (case fromCodePoint (Num ch) of
        None \<Rightarrow> (Some RangeError, g)
      | Some t \<Rightarrow> (None, append_output g t))"

definition glk_put_char_stream_uni :: "glk \<Rightarrow> nat \<Rightarrow> int \<Rightarrow> glk" where
  "glk_put_char_stream_uni g s ch = glk_put_char_stream g s ch"

definition glk_put_string_uni :: "glk \<Rightarrow> jsstring \<Rightarrow> glk" where
  "glk_put_string_uni g t = append_output g t"

primrec put_buffer_uni_loop :: "glk \<Rightarrow> jsval list \<Rightarrow> js_error option \<times> glk" where
  "put_buffer_uni_loop g [] = (None, g)"
| "put_buffer_uni_loop g (x # xs) =
     (case fromCodePoint x of
        None \<Rightarrow> (Some RangeError, g)
      | Some t \<Rightarrow> put_buffer_uni_loop (append_output g t) xs)"

definition glk_put_buffer_uni :: "glk \<Rightarrow> jsval list \<Rightarrow> js_error option \<times> glk" where
  "glk_put_buffer_uni g b = put_buffer_uni_loop g b"

text \<open>
  The string forms of ifvms. The text may be \<open>null\<close> or \<open>undefined\<close> (\<open>None\<close>); \<open>if (text)\<close>
  fails on these and on the empty string. With no stream, \<open>str.data\<close> throws a TypeError.
\<close>

definition glk_put_jstring :: "glk \<Rightarrow> jsstring option \<Rightarrow> glk" where
  "glk_put_jstring g t =
     (case t of Some t' \<Rightarrow> if t' \<noteq> [] then append_output g t' else g | None \<Rightarrow> g)"

definition glk_put_jstring_stream ::
  "glk \<Rightarrow> nat option \<Rightarrow> jsstring option \<Rightarrow> js_error option \<times> glk" where
  "glk_put_jstring_stream g s t =
     (case t of
        None \<Rightarrow> (None, g)
      | Some t' \<Rightarrow>
          if t' = [] then (None, g)
          else
            (case s of
               None \<Rightarrow> (Some TypeError, g)
             | Some s' \<Rightarrow>
                 let st = streams g ! s';
                     g1 = (if s' = mainStream \<or> s' = currentStream g then append_output g t'
                           else if array_truthy (data st) then
                             update_stream g s' (\<lambda>st. st\<lparr>data := data st @ charCodes t'\<rparr>)
                           else g)
                 in (None,
                     update_stream g1 s'
                       (\<lambda>st. st\<lparr>write_count := write_count st + int (length t')\<rparr>))))"

subsection \<open>Reading from a stream\<close>

definition glk_get_char_stream :: "glk \<Rightarrow> nat \<Rightarrow> jsval \<times> glk" where
  "glk_get_char_stream g s =
     (let st = streams g ! s;
          advance = update_stream g s (\<lambda>st. st\<lparr>read_count := read_count st + 1, pos := pos st + 1\<rparr>);
          from_data = (if array_truthy (data st) \<and> pos st < int (length (data st))
                       then (array_get (data st) (pos st), advance)
                       else (Num (- 1), g))
      in case buf st of
           Some b \<Rightarrow> if pos st < buflen st then (array_get (arrays g b) (pos st), advance)
                     else from_data
         | None \<Rightarrow> from_data)"

definition glk_get_char_stream_uni :: "glk \<Rightarrow> nat \<Rightarrow> jsval \<times> glk" where
  "glk_get_char_stream_uni g s = glk_get_char_stream g s"

text \<open>
  \<open>len || buf.length\<close>: the length argument when it is given and not 0, the length of the
  target array otherwise.
\<close>

definition read_limit :: "glk \<Rightarrow> nat \<Rightarrow> int option \<Rightarrow> int" where
  "read_limit g b len =
     (case len of Some n \<Rightarrow> if n \<noteq> 0 then n else int (length (arrays g b))
      | None \<Rightarrow> int (length (arrays g b)))"

function get_buffer_loop :: "glk \<Rightarrow> nat \<Rightarrow> nat \<Rightarrow> int \<Rightarrow> int \<Rightarrow> int \<Rightarrow> int \<times> glk" where
  "get_buffer_loop g s b lim i count =
     (if i < lim then
        (let (ch, g1) = glk_get_char_stream g s
         in if ch = Num (- 1) then (count, g1)
            else get_buffer_loop (store_array g1 b i ch) s b lim (i + 1) (count + 1))
      else (count, g))"
  by pat_completeness auto
termination
  by (relation "measure (\<lambda>(g, s, b, lim, i, count). nat (lim - i))") auto

definition glk_get_buffer_stream :: "glk \<Rightarrow> nat \<Rightarrow> nat \<Rightarrow> int option \<Rightarrow> int \<times> glk" where
  "glk_get_buffer_stream g s b len = get_buffer_loop g s b (read_limit g b len) 0 0"

definition glk_get_buffer_stream_uni :: "glk \<Rightarrow> nat \<Rightarrow> nat \<Rightarrow> int option \<Rightarrow> int \<times> glk" where
  "glk_get_buffer_stream_uni g s b len = glk_get_buffer_stream g s b len"

function get_line_loop :: "glk \<Rightarrow> nat \<Rightarrow> nat \<Rightarrow> int \<Rightarrow> int \<Rightarrow> int \<Rightarrow> int \<times> glk" where
  "get_line_loop g s b lim i count =
     (if i < lim - 1 then
        (let (ch, g1) = glk_get_char_stream g s
         in if ch = Num (- 1) then (count, g1)
            else if ch = Num 10 then (count + 1, store_array g1 b i ch)
            else get_line_loop (store_array g1 b i ch) s b lim (i + 1) (count + 1))
      else (count, g))"
  by pat_completeness auto
termination
  by (relation "measure (\<lambda>(g, s, b, lim, i, count). nat (lim - i))") auto

definition glk_get_line_stream :: "glk \<Rightarrow> nat \<Rightarrow> nat \<Rightarrow> int option \<Rightarrow> int \<times> glk" where
  "glk_get_line_stream g s b len = get_line_loop g s b (read_limit g b len) 0 0"

definition glk_get_line_stream_uni :: "glk \<Rightarrow> nat \<Rightarrow> nat \<Rightarrow> int option \<Rightarrow> int \<times> glk" where
  "glk_get_line_stream_uni g s b len = glk_get_line_stream g s b len"

declare get_buffer_loop.simps [simp del]
declare get_line_loop.simps [simp del]

subsection \<open>Style hints\<close>

definition glk_set_style :: "glk \<Rightarrow> int \<Rightarrow> glk" where
  "glk_set_style g style = g"

definition glk_set_style_stream :: "glk \<Rightarrow> nat \<Rightarrow> int \<Rightarrow> glk" where
  "glk_set_style_stream g s style = g"

definition glk_stylehint_set :: "glk \<Rightarrow> int \<Rightarrow> int \<Rightarrow> int \<Rightarrow> int \<Rightarrow> glk" where
  "glk_stylehint_set g wt style hint v = g"

definition glk_stylehint_clear :: "glk \<Rightarrow> int \<Rightarrow> int \<Rightarrow> int \<Rightarrow> glk" where
  "glk_stylehint_clear g wt style hint = g"

definition garglk_set_reversevideo_stream :: "glk \<Rightarrow> nat \<Rightarrow> int \<Rightarrow> glk" where
  "garglk_set_reversevideo_stream g s v = g"

subsection \<open>Input requests\<close>

text \<open>
  The loop \<open>for (i = 0; i < len; i++) inputState.buffer[i] = input.charCodeAt(i)\<close>, run over
  the first \<open>len\<close> code units of the input from index \<open>i\<close> on.
\<close>

primrec copy_input :: "glk \<Rightarrow> nat \<Rightarrow> int \<Rightarrow> jsstring \<Rightarrow> glk" where
  "copy_input g b i [] = g"
| "copy_input g b i (c # cs) = copy_input (store_array g b i (Num (uint c))) b (i + 1) cs"

text \<open>The three parts of the callback's body, in the order the source runs them.\<close>

definition input_length :: "glk \<Rightarrow> jsstring \<Rightarrow> int" where
  "input_length g input = min (int (length input)) (maxLen (inputState g))"

definition signal_length :: "glk \<Rightarrow> int \<Rightarrow> glk" where
  "signal_length g len =
     (case event (inputState g) of Some e \<Rightarrow> set_field g e 2 (Num len) | None \<Rightarrow> g)"

definition clear_pending :: "glk \<Rightarrow> glk" where
  "clear_pending g = g\<lparr>inputState := (inputState g)\<lparr>pending := False\<rparr>\<rparr>"

text \<open>The arrow function \<open>_request_line\<close> hands to \<open>terminal.waitForInput\<close>.\<close>

definition line_input_callback :: "glk \<Rightarrow> jsstring \<Rightarrow> glk" where
  "line_input_callback g input =
     (case buffer (inputState g) of
        Some b \<Rightarrow>
          if pending (inputState g) then
            (let len = input_length g input;
                 g1 = copy_input g b 0 (take (nat len) input);
                 g2 = signal_length g1 len
             in clear_pending g2)
          else g
      | None \<Rightarrow> g)"

definition request_line :: "glk \<Rightarrow> nat option \<Rightarrow> nat option \<Rightarrow> int \<Rightarrow> glk" where
  "request_line g win b initlen =
     (let g1 = flush_output g;
          maxlen = (case b of Some a \<Rightarrow> int (length (arrays g1 a)) | None \<Rightarrow> 0);
          g2 = g1\<lparr>inputState := (inputState g1)\<lparr>buffer := b, maxLen := maxlen, pending := True\<rparr>\<rparr>;
          g3 = (case win of
                  Some w \<Rightarrow>
                    update_window g2 w
                      (\<lambda>wn. wn\<lparr>input_request_type := Some ReqLine, line_input_buf := b\<rparr>)
                | None \<Rightarrow> g2)
      in waitForInput g3 LineInputCallback)"

definition glk_request_line_event :: "glk \<Rightarrow> nat option \<Rightarrow> nat option \<Rightarrow> int \<Rightarrow> glk" where
  "glk_request_line_event g win b initlen = request_line g win b initlen"

definition glk_request_line_event_uni :: "glk \<Rightarrow> nat option \<Rightarrow> nat option \<Rightarrow> int \<Rightarrow> glk" where
  "glk_request_line_event_uni g win b initlen = request_line g win b initlen"

definition glk_request_char_event :: "glk \<Rightarrow> nat option \<Rightarrow> glk" where
  "glk_request_char_event g win =
     (let g1 = flush_output g
      in case win of
           Some w \<Rightarrow> update_window g1 w (\<lambda>wn. wn\<lparr>input_request_type := Some ReqChar\<rparr>)
         | None \<Rightarrow> g1)"

definition glk_request_char_event_uni :: "glk \<Rightarrow> nat option \<Rightarrow> glk" where
  "glk_request_char_event_uni g win = glk_request_char_event g win"

definition glk_cancel_line_event :: "glk \<Rightarrow> nat option \<Rightarrow> nat option \<Rightarrow> glk" where
  "glk_cancel_line_event g win ev =
     (let g1 = (case win of
                  Some w \<Rightarrow>
                    update_window g w (\<lambda>wn. wn\<lparr>input_request_type := None, line_input_buf := None\<rparr>)
                | None \<Rightarrow> g)
      in case ev of Some e \<Rightarrow> set_field g1 e 0 (Num 0) | None \<Rightarrow> g1)"

definition glk_cancel_char_event :: "glk \<Rightarrow> nat option \<Rightarrow> glk" where
  "glk_cancel_char_event g win =
     (case win of
        Some w \<Rightarrow> update_window g w (\<lambda>wn. wn\<lparr>input_request_type := None\<rparr>)
      | None \<Rightarrow> g)"

subsection \<open>Events\<close>

definition glk_select :: "glk \<Rightarrow> nat \<Rightarrow> glk" where
  "glk_select g e =
     (let g0 = g\<lparr>inputState := (inputState g)\<lparr>event := Some e\<rparr>\<rparr>;
          g1 = set_field g0 e 0 (Num evtype_LineInput);
          g2 = set_field g1 e 1 (WindowRef mainWindow);
          g3 = set_field g2 e 2 (Num 0)
      in set_field g3 e 3 (Num 0))"

definition glk_select_poll :: "glk \<Rightarrow> nat \<Rightarrow> glk" where
  "glk_select_poll g e = set_field g e 0 (Num evtype_None)"

definition glk_tick :: "glk \<Rightarrow> glk" where
  "glk_tick g = g"

subsection \<open>File references\<close>

definition glk_fileref_create_by_prompt :: "int \<Rightarrow> int \<Rightarrow> int \<Rightarrow> fileref" where
  "glk_fileref_create_by_prompt us fm r =
     \<lparr>fref_rock = r, usage = us, fref_fmode = Some fm, filename = literal ''zork1-save''\<rparr>"


definition glk_fileref_destroy :: "glk \<Rightarrow> fileref \<Rightarrow> glk" where
  "glk_fileref_destroy g fr = g"

definition glk_fileref_does_file_exist :: "glk \<Rightarrow> fileref \<Rightarrow> int" where
  "glk_fileref_does_file_exist g fr = (if localStorage g (filename fr) \<noteq> None then 1 else 0)"

subsection \<open>Flush after a step of the virtual machine\<close>

definition update :: "glk \<Rightarrow> glk" where
  "update g = flush_output g"

section \<open>The terminal's side of line input\<close>

text \<open>
  \<open>ZorkTerminal.handleCommand\<close>, as far as it reaches the adapter: the pending resolver,
  if there is one, is taken out and called with the submitted command. (The echo, the
  command history and the resumption of the virtual machine are outside the adapter.)
\<close>

definition run_callback :: "callback \<Rightarrow> glk \<Rightarrow> jsstring \<Rightarrow> glk" where
  "run_callback cb g input = (case cb of LineInputCallback \<Rightarrow> line_input_callback g input)"

definition handleCommand :: "glk \<Rightarrow> jsstring \<Rightarrow> glk" where
  "handleCommand g command =
     (case inputResolver g of
        Some resolver \<Rightarrow> run_callback resolver (g\<lparr>inputResolver := None\<rparr>) command
      | None \<Rightarrow> g)"

section \<open>Sequences of calls\<close>

text \<open>
  The calls that can change the adapter's state, each with its arguments, and the terminal
  delivering a submitted line. The functions left out return a constant or read the state
  only (\<open>glk_gestalt\<close>, \<open>glk_window_get_stream\<close>, \<open>glk_window_get_parent\<close>, the iterators,
  \<open>glk_stream_get_current\<close>, \<open>glk_stream_get_position\<close>, the file reference functions), do
  nothing (cursor movement, arrangement, style hints, \<open>glk_tick\<close>), or only call the function
  of the same name without \<open>_uni\<close>.
\<close>

datatype call =
    Fatal_error jsstring
  | Glk_exit
  | Glk_window_open int int int int int
  | Glk_window_close nat "nat option"
  | Glk_window_clear "nat option"
  | Glk_set_window "nat option"
  | Glk_window_get_size nat "nat option" "nat option"
  | Glk_stream_set_current "nat option"
  | Glk_stream_open_file fileref int int
  | Glk_stream_open_memory "nat option" int int int
  | Glk_stream_close nat "nat option"
  | Glk_stream_set_position nat int int
  | Glk_put_char int
  | Glk_put_char_stream nat int
  | Glk_put_string jsstring
  | Glk_put_string_stream nat jsstring
  | Glk_put_buffer "jsval list"
  | Glk_put_buffer_stream nat "jsval list"
  | Glk_put_char_uni int
  | Glk_put_char_stream_uni nat int
  | Glk_put_string_uni jsstring
  | Glk_put_buffer_uni "jsval list"
  | Glk_put_jstring "jsstring option"
  | Glk_put_jstring_stream "nat option" "jsstring option"
  | Glk_get_char_stream nat
  | Glk_get_buffer_stream nat nat "int option"
  | Glk_get_line_stream nat nat "int option"
  | Glk_request_line_event "nat option" "nat option" int
  | Glk_request_char_event "nat option"
  | Glk_cancel_line_event "nat option" "nat option"
  | Glk_cancel_char_event "nat option"
  | Glk_select nat
  | Glk_select_poll nat
  | Update
  | HandleCommand jsstring

record json =
  JSON_parse :: "jsstring \<Rightarrow> jsval list option"
  JSON_stringify :: "jsval list \<Rightarrow> jsstring"

text \<open>The state after a call; what the call returns or throws is dropped.\<close>

primrec step :: "json \<Rightarrow> glk \<Rightarrow> call \<Rightarrow> glk" where
  "step J g (Fatal_error msg) = fatal_error g msg"
| "step J g Glk_exit = glk_exit g"
| "step J g (Glk_window_open sp m sz wt r) = snd (glk_window_open g sp m sz wt r)"
| "step J g (Glk_window_close w res) = glk_window_close g w res"
| "step J g (Glk_window_clear w) = glk_window_clear g w"
| "step J g (Glk_set_window w) = glk_set_window g w"
| "step J g (Glk_window_get_size w wr hr) = glk_window_get_size g w wr hr"
| "step J g (Glk_stream_set_current s) = glk_stream_set_current g s"
| "step J g (Glk_stream_open_file fr fm r) = snd (glk_stream_open_file (JSON_parse J) g fr fm r)"
| "step J g (Glk_stream_open_memory b bl fm r) = snd (glk_stream_open_memory g b bl fm r)"
| "step J g (Glk_stream_close s res) = glk_stream_close (JSON_stringify J) g s res"
| "step J g (Glk_stream_set_position s p m) = glk_stream_set_position g s p m"
| "step J g (Glk_put_char ch) = glk_put_char g ch"
| "step J g (Glk_put_char_stream s ch) = glk_put_char_stream g s ch"
| "step J g (Glk_put_string t) = glk_put_string g t"
| "step J g (Glk_put_string_stream s t) = glk_put_string_stream g s t"
| "step J g (Glk_put_buffer b) = glk_put_buffer g b"
| "step J g (Glk_put_buffer_stream s b) = glk_put_buffer_stream g s b"
| "step J g (Glk_put_char_uni ch) = snd (glk_put_char_uni g ch)"
| "step J g (Glk_put_char_stream_uni s ch) = glk_put_char_stream_uni g s ch"
| "step J g (Glk_put_string_uni t) = glk_put_string_uni g t"
| "step J g (Glk_put_buffer_uni b) = snd (glk_put_buffer_uni g b)"
| "step J g (Glk_put_jstring t) = glk_put_jstring g t"
| "step J g (Glk_put_jstring_stream s t) = snd (glk_put_jstring_stream g s t)"
| "step J g (Glk_get_char_stream s) = snd (glk_get_char_stream g s)"
| "step J g (Glk_get_buffer_stream s b len) = snd (glk_get_buffer_stream g s b len)"
| "step J g (Glk_get_line_stream s b len) = snd (glk_get_line_stream g s b len)"
| "step J g (Glk_request_line_event w b n) = glk_request_line_event g w b n"
| "step J g (Glk_request_char_event w) = glk_request_char_event g w"
| "step J g (Glk_cancel_line_event w e) = glk_cancel_line_event g w e"
| "step J g (Glk_cancel_char_event w) = glk_cancel_char_event g w"
| "step J g (Glk_select e) = glk_select g e"
| "step J g (Glk_select_poll e) = glk_select_poll g e"
| "step J g Update = update g"
| "step J g (HandleCommand command) = handleCommand g command"

primrec run :: "json \<Rightarrow> glk \<Rightarrow> call list \<Rightarrow> glk" where
  "run J g [] = g"
| "run J g (c # cs) = run J (step J g c) cs"

section \<open>Notions the properties are stated with\<close>

subsection \<open>Output\<close>

text \<open>What \<open>terminal.print\<close> has received so far: the texts of its calls, in order.\<close>

fun printed_text :: "terminal_call list \<Rightarrow> jsstring" where
  "printed_text [] = []"
| "printed_text (Print t # cs) = t @ printed_text cs"
| "printed_text (Clear # cs) = printed_text cs"
| "printed_text (HandleError t # cs) = printed_text cs"

definition received :: "glk \<Rightarrow> jsstring" where
  "received g = printed_text (terminal g)"

definition shown :: "glk \<Rightarrow> jsstring" where
  "shown g = received g @ outputBuffer g"

text \<open>A stream form writes to the output buffer when its target is the main or the current stream.\<close>

definition targets_output :: "glk \<Rightarrow> nat \<Rightarrow> bool" where
  "targets_output g s \<longleftrightarrow> s = mainStream \<or> s = currentStream g"

text \<open>The text of a sequence of code points, up to the first value that is no code point.\<close>

primrec code_points_text :: "jsval list \<Rightarrow> jsstring" where
  "code_points_text [] = []"
| "code_points_text (x # xs) =
     (case fromCodePoint x of None \<Rightarrow> [] | Some t \<Rightarrow> t @ code_points_text xs)"

text \<open>
  The text a call writes to the currently selected stream: the character of a code for the
  byte forms, of a code point for the Unicode forms, the string itself for the string forms;
  nothing for a stream form aimed at another stream, and nothing for any other call.
\<close>

definition written :: "glk \<Rightarrow> call \<Rightarrow> jsstring" where
  "written g c =
     (case c of
        Glk_put_char ch \<Rightarrow> fromCharCode (Num ch)
      | Glk_put_char_stream s ch \<Rightarrow> if targets_output g s then fromCharCode (Num ch) else []
      | Glk_put_string t \<Rightarrow> t
      | Glk_put_string_stream s t \<Rightarrow> if targets_output g s then t else []
      | Glk_put_buffer b \<Rightarrow> concat (map fromCharCode b)
      | Glk_put_buffer_stream s b \<Rightarrow> if targets_output g s then concat (map fromCharCode b) else []
      | Glk_put_char_uni ch \<Rightarrow> code_points_text [Num ch]
      | Glk_put_char_stream_uni s ch \<Rightarrow> if targets_output g s then code_points_text [Num ch] else []
      | Glk_put_string_uni t \<Rightarrow> t
      | Glk_put_buffer_uni b \<Rightarrow> code_points_text b
      | Glk_put_jstring t \<Rightarrow> (case t of Some t' \<Rightarrow> t' | None \<Rightarrow> [])
      | Glk_put_jstring_stream s t \<Rightarrow>
          (case (s, t) of
             (Some s', Some t') \<Rightarrow> if targets_output g s' then t' else []
           | _ \<Rightarrow> [])
      | _ \<Rightarrow> [])"

definition is_flush :: "call \<Rightarrow> bool" where
  "is_flush c =
     (case c of
        Update \<Rightarrow> True
      | Glk_request_line_event w b n \<Rightarrow> True
      | Glk_request_char_event w \<Rightarrow> True
      | Glk_exit \<Rightarrow> True
      | _ \<Rightarrow> False)"

text \<open>The line \<open>glk_exit\<close> prints after its flush.\<close>

definition exit_line :: "call \<Rightarrow> jsstring" where
  "exit_line c = (case c of Glk_exit \<Rightarrow> session_ended | _ \<Rightarrow> [])"

text \<open>
  \<open>glk_put_char_stream_uni\<close> hands its code point to \<open>glk_put_char_stream\<close>, which builds
  the character with \<open>String.fromCharCode\<close>: the two agree up to \<open>0xFFFF\<close>.
\<close>

definition in_plane :: "call \<Rightarrow> bool" where
  "in_plane c =
     (case c of Glk_put_char_stream_uni s ch \<Rightarrow> 0 \<le> ch \<and> ch \<le> 0xFFFF | _ \<Rightarrow> True)"

primrec written_all :: "json \<Rightarrow> glk \<Rightarrow> call list \<Rightarrow> jsstring" where
  "written_all J g [] = []"
| "written_all J g (c # cs) = written g c @ exit_line c @ written_all J (step J g c) cs"

subsection \<open>Cursors\<close>

definition exhausted :: "stream \<Rightarrow> bool" where
  "exhausted st \<longleftrightarrow>
     (case buf st of Some b \<Rightarrow> buflen st \<le> pos st | None \<Rightarrow> True)
     \<and> int (length (data st)) \<le> pos st"

definition unit_at_cursor :: "glk \<Rightarrow> stream \<Rightarrow> jsval" where
  "unit_at_cursor g st =
     (case buf st of
        Some b \<Rightarrow> if pos st < buflen st then array_get (arrays g b) (pos st)
                  else array_get (data st) (pos st)
      | None \<Rightarrow> array_get (data st) (pos st))"

text \<open>How far a stream's cursor and read counter have moved between two states.\<close>

definition advanced :: "glk \<Rightarrow> glk \<Rightarrow> nat \<Rightarrow> int \<Rightarrow> bool" where
  "advanced g g' s n \<longleftrightarrow>
     length (streams g') = length (streams g)
     \<and> pos (streams g' ! s) = pos (streams g ! s) + n
     \<and> read_count (streams g' ! s) = read_count (streams g ! s) + n"

text \<open>
  The cursor of a stream is within its range: \<open>[0, buflen]\<close> for a stream bound to a fixed
  buffer, which is then no shorter than \<open>buflen\<close> and is the stream's only storage;
  \<open>[0, data.length]\<close> for any other stream.
\<close>

definition stream_ok :: "(nat \<Rightarrow> jsval list) \<Rightarrow> stream \<Rightarrow> bool" where
  "stream_ok arrs st \<longleftrightarrow>
     0 \<le> pos st \<and>
     (case buf st of
        Some b \<Rightarrow> pos st \<le> buflen st \<and> buflen st \<le> int (length (arrs b)) \<and> data st = []
      | None \<Rightarrow> pos st \<le> int (length (data st)))"

definition streams_ok :: "glk \<Rightarrow> bool" where
  "streams_ok g \<longleftrightarrow> list_all (stream_ok (arrays g)) (streams g)"

text \<open>The position \<open>glk_stream_set_position\<close> sets.\<close>

definition seek_target :: "stream \<Rightarrow> int \<Rightarrow> int \<Rightarrow> int" where
  "seek_target st p seekmode =
     (if seekmode = seekmode_Start then p
      else if seekmode = seekmode_Current then pos st + p
      else if seekmode = seekmode_End then int (length (data st)) + p
      else pos st)"

text \<open>A string or buffer write to a stream bound to a fixed buffer that is not a target of output.\<close>

definition bulk_write_to_fixed :: "glk \<Rightarrow> nat \<Rightarrow> bool" where
  "bulk_write_to_fixed g s \<longleftrightarrow> \<not> targets_output g s \<and> buf (streams g ! s) \<noteq> None"

text \<open>
  The calls the cursor invariant is stated for: a seek whose target lies in the stream's
  range, a memory stream opened with a capacity between 0 and the length of its buffer, and
  no string or buffer write to a stream bound to a fixed buffer.
\<close>

definition permitted :: "glk \<Rightarrow> call \<Rightarrow> bool" where
  "permitted g c =
     (case c of
        Glk_stream_set_position s p m \<Rightarrow>
          s < length (streams g) \<longrightarrow>
            stream_ok (arrays g) ((streams g ! s)\<lparr>pos := seek_target (streams g ! s) p m\<rparr>)
      | Glk_stream_open_memory b bl fm r \<Rightarrow>
          (case b of Some a \<Rightarrow> 0 \<le> bl \<and> bl \<le> int (length (arrays g a)) | None \<Rightarrow> True)
      | Glk_put_string_stream s t \<Rightarrow> \<not> bulk_write_to_fixed g s
      | Glk_put_buffer_stream s b \<Rightarrow> \<not> bulk_write_to_fixed g s
      | Glk_put_jstring_stream s t \<Rightarrow>
          (case s of Some s' \<Rightarrow> \<not> bulk_write_to_fixed g s' | None \<Rightarrow> True)
      | _ \<Rightarrow> True)"

primrec permitted_all :: "json \<Rightarrow> glk \<Rightarrow> call list \<Rightarrow> bool" where
  "permitted_all J g [] = True"
| "permitted_all J g (c # cs) = (permitted g c \<and> permitted_all J (step J g c) cs)"

subsection \<open>Stored text\<close>

text \<open>
  An instance of the host's JSON, for the texts the adapter itself stores.
  \<open>JSON.stringify\<close> of an array of integers is the decimal numbers, separated by commas, in
  brackets; a hole is written \<open>null\<close>. The parser reads an array of integer literals
  written that way, without white space, and rejects every other text.
\<close>

fun digits :: "nat \<Rightarrow> jsstring" where
  "digits n = (if n < 10 then [of_nat (48 + n)] else digits (n div 10) @ [of_nat (48 + n mod 10)])"

declare digits.simps [simp del]

definition number_text :: "int \<Rightarrow> jsstring" where
  "number_text n = (if n < 0 then 45 # digits (nat (- n)) else digits (nat n))"

definition element_text :: "jsval \<Rightarrow> jsstring" where
  "element_text v = (case v of Num n \<Rightarrow> number_text n | _ \<Rightarrow> literal ''null'')"

fun join_commas :: "jsstring list \<Rightarrow> jsstring" where
  "join_commas [] = []"
| "join_commas [x] = x"
| "join_commas (x # y # ys) = x @ 44 # join_commas (y # ys)"

definition stringify_array :: "jsval list \<Rightarrow> jsstring" where
  "stringify_array xs = 91 # join_commas (map element_text xs) @ [93]"

fun split_commas :: "jsstring \<Rightarrow> jsstring list" where
  "split_commas [] = [[]]"
| "split_commas (c # cs) =
     (if c = 44 then [] # split_commas cs
      else (case split_commas cs of [] \<Rightarrow> [[c]] | x # xs \<Rightarrow> (c # x) # xs))"

definition is_digit :: "16 word \<Rightarrow> bool" where
  "is_digit c \<longleftrightarrow> 48 \<le> c \<and> c \<le> 57"

definition digits_value :: "jsstring \<Rightarrow> nat" where
  "digits_value cs = foldl (\<lambda>acc c. 10 * acc + (unat c - 48)) 0 cs"

definition parse_natural :: "jsstring \<Rightarrow> nat option" where
  "parse_natural cs =
     (if cs \<noteq> [] \<and> list_all is_digit cs \<and> (hd cs = 48 \<longrightarrow> length cs = 1)
      then Some (digits_value cs) else None)"

definition parse_number :: "jsstring \<Rightarrow> jsval option" where
  "parse_number cs =
     (case cs of
        [] \<Rightarrow> None
      | c # cs' \<Rightarrow>
          if c = 45 then map_option (\<lambda>n. Num (- int n)) (parse_natural cs')
          else map_option (\<lambda>n. Num (int n)) (parse_natural cs))"

definition parse_array :: "jsstring \<Rightarrow> jsval list option" where
  "parse_array t =
     (case t of
        [] \<Rightarrow> None
      | c # cs \<Rightarrow>
          if c = 91 \<and> cs \<noteq> [] \<and> last cs = 93 then
            (if butlast cs = [] then Some []
             else those (map parse_number (split_commas (butlast cs))))
          else None)"

definition decimal_json :: json where
  "decimal_json = \<lparr>JSON_parse = parse_array, JSON_stringify = stringify_array\<rparr>"


section \<open>Basic facts\<close>

subsection \<open>Arrays and lists\<close>

lemma nth_extended:
  "length xs \<le> n \<Longrightarrow> m \<le> n \<Longrightarrow>
   (xs @ replicate (n - length xs) u @ [v]) ! m =
     (if m = n then v else if m < length xs then xs ! m else u)"
  by (auto simp: nth_append)

lemma array_get_set:
  assumes "0 \<le> i"
  shows "array_get (array_set xs i v) j = (if j = i then v else array_get xs j)"
proof (cases "i < int (length xs)")
  case True
  with assms have "array_set xs i v = xs[nat i := v]"
    by (simp add: array_set_def)
  moreover have "nat i = nat j \<longleftrightarrow> j = i" if "0 \<le> j"
    using that assms by linarith
  ultimately show ?thesis
    using True assms by (auto simp: array_get_def nth_list_update)
next
  case False
  define n where "n = nat i"
  have n: "i = int n" "length xs \<le> n"
    using False assms by (simp_all add: n_def)
  have set: "array_set xs i v = xs @ replicate (n - length xs) Undefined @ [v]"
    using False assms by (simp add: array_set_def n_def)
  show ?thesis
  proof (cases "0 \<le> j \<and> j \<le> i")
    case True
    define m where "m = nat j"
    have m: "j = int m" "m \<le> n"
      using True n by (auto simp: m_def)
    show ?thesis
      unfolding set array_get_def using n(2) m(2)
      by (simp add: m(1) n(1) nth_extended del: nth_append_length)
  next
    case False
    then show ?thesis
      unfolding set array_get_def using n by auto
  qed
qed

lemma length_array_set: "length xs \<le> length (array_set xs i v)"
  by (auto simp: array_set_def)

lemma array_set_in_range:
  "0 \<le> i \<Longrightarrow> i < int (length xs) \<Longrightarrow> array_set xs i v = xs[nat i := v]"
  by (simp add: array_set_def)

lemma array_set_at_end: "array_set xs (int (length xs)) v = xs @ [v]"
  by (simp add: array_set_def)

lemma nth_list_update_any:
  "xs[i := x] ! j = (if i = j \<and> i < length xs then x else xs ! j)"
  by (cases "i < length xs") (auto simp: nth_list_update list_update_beyond)

subsection \<open>What the helper functions leave alone\<close>

lemma set_field_simps [simp]:
  "outputBuffer (set_field g r i v) = outputBuffer g"
  "windows (set_field g r i v) = windows g"
  "streams (set_field g r i v) = streams g"
  "currentStream (set_field g r i v) = currentStream g"
  "inputState (set_field g r i v) = inputState g"
  "arrays (set_field g r i v) = arrays g"
  "refboxes (set_field g r i v) = refboxes g"
  "terminal (set_field g r i v) = terminal g"
  "inputResolver (set_field g r i v) = inputResolver g"
  "localStorage (set_field g r i v) = localStorage g"
  "refstructs (set_field g r i v) = (refstructs g)(r := array_set (refstructs g r) i v)"
  by (simp_all add: set_field_def)

lemma store_array_fields [simp]:
  "streams (store_array g b i v) = streams g"
  "windows (store_array g b i v) = windows g"
  "outputBuffer (store_array g b i v) = outputBuffer g"
  "currentStream (store_array g b i v) = currentStream g"
  "inputState (store_array g b i v) = inputState g"
  "terminal (store_array g b i v) = terminal g"
  "refstructs (store_array g b i v) = refstructs g"
  "inputResolver (store_array g b i v) = inputResolver g"
  "localStorage (store_array g b i v) = localStorage g"
  "arrays (store_array g b i v) = (arrays g)(b := array_set (arrays g b) i v)"
  by (simp_all add: store_array_def)

lemma update_stream_fields [simp]:
  "windows (update_stream g s f) = windows g"
  "outputBuffer (update_stream g s f) = outputBuffer g"
  "currentStream (update_stream g s f) = currentStream g"
  "inputState (update_stream g s f) = inputState g"
  "terminal (update_stream g s f) = terminal g"
  "arrays (update_stream g s f) = arrays g"
  "refstructs (update_stream g s f) = refstructs g"
  "inputResolver (update_stream g s f) = inputResolver g"
  "localStorage (update_stream g s f) = localStorage g"
  "streams (update_stream g s f) = (streams g)[s := f (streams g ! s)]"
  by (simp_all add: update_stream_def)

lemma append_output_fields [simp]:
  "streams (append_output g t) = streams g"
  "arrays (append_output g t) = arrays g"
  "currentStream (append_output g t) = currentStream g"
  by (simp_all add: append_output_def)

lemma update_window_fields [simp]:
  "streams (update_window g w f) = streams g"
  "arrays (update_window g w f) = arrays g"
  by (simp_all add: update_window_def)

lemma flush_output_fields [simp]:
  "windows (flush_output g) = windows g"
  "streams (flush_output g) = streams g"
  "currentStream (flush_output g) = currentStream g"
  "inputState (flush_output g) = inputState g"
  "arrays (flush_output g) = arrays g"
  "refstructs (flush_output g) = refstructs g"
  "refboxes (flush_output g) = refboxes g"
  "inputResolver (flush_output g) = inputResolver g"
  "localStorage (flush_output g) = localStorage g"
  "outputBuffer (flush_output g) = []"
  by (simp_all add: flush_output_def terminal_print_def)

lemma request_line_fields [simp]:
  "inputState (request_line g w b n) =
     (inputState g)\<lparr>buffer := b,
        maxLen := (case b of Some a \<Rightarrow> int (length (arrays g a)) | None \<Rightarrow> 0), pending := True\<rparr>"
  "arrays (request_line g w b n) = arrays g"
  "refstructs (request_line g w b n) = refstructs g"
  "streams (request_line g w b n) = streams g"
  "inputResolver (request_line g w b n) = Some LineInputCallback"
  "outputBuffer (request_line g w b n) = []"
  by (simp_all add: request_line_def Let_def waitForInput_def update_window_def
      split: option.splits)

lemma put_buffer_loop_fields [simp]:
  "streams (put_buffer_loop g b) = streams g"
  "arrays (put_buffer_loop g b) = arrays g"
  by (induction b arbitrary: g) simp_all

lemma put_buffer_uni_loop_fields [simp]:
  "streams (snd (put_buffer_uni_loop g b)) = streams g"
  "arrays (snd (put_buffer_uni_loop g b)) = arrays g"
  by (induction b arbitrary: g) (simp_all split: option.splits)

lemma get_size_fields [simp]:
  "streams (glk_window_get_size g w wr hr) = streams g"
  "arrays (glk_window_get_size g w wr hr) = arrays g"
  by (simp_all add: glk_window_get_size_def set_value_def Let_def split: option.splits)

lemma close_streams [simp]:
  "streams (glk_stream_close stringify g s res) = streams g"
  by (simp add: glk_stream_close_def Let_def split: option.splits)

subsection \<open>Unfolding a concrete run\<close>

lemmas eval_defs =
  createGlk_def createWindow_def createStream_def glk_constants mainWindow_def mainStream_def
  glk_request_line_event_def request_line_def flush_output_def waitForInput_def update_window_def
  glk_select_def set_field_def array_set_def array_get_def RefStruct_new_def Let_def
  literal_def charCodes_def


lemmas step_defs =
  glk_stream_open_memory_def glk_put_char_stream_def glk_stream_set_position_def
  glk_get_char_stream_def update_stream_def store_array_def array_truthy_def
  targets_output_def bulk_write_to_fixed_def seek_target_def

subsection \<open>The copy loop of the input callback\<close>

lemma copy_input_frame:
  "copy_input g b i cs = g\<lparr>arrays := arrays (copy_input g b i cs)\<rparr>"
proof (induction cs arbitrary: g i)
  case Nil
  show ?case by simp
next
  case (Cons c cs)
  define g' where "g' = store_array g b i (Num (uint c))"
  have "copy_input g b i (c # cs) = copy_input g' b (i + 1) cs"
    by (simp add: g'_def)
  also have "\<dots> = g'\<lparr>arrays := arrays (copy_input g' b (i + 1) cs)\<rparr>"
    by (rule Cons.IH)
  also have "\<dots> = g\<lparr>arrays := arrays (copy_input g' b (i + 1) cs)\<rparr>"
    by (simp add: g'_def store_array_def)
  finally show ?case by (simp add: g'_def)
qed

lemma copy_input_fields [simp]:
  "inputState (copy_input g b i cs) = inputState g"
  "refstructs (copy_input g b i cs) = refstructs g"
  "windows (copy_input g b i cs) = windows g"
  "streams (copy_input g b i cs) = streams g"
  "outputBuffer (copy_input g b i cs) = outputBuffer g"
  "terminal (copy_input g b i cs) = terminal g"
  "inputResolver (copy_input g b i cs) = inputResolver g"
  by (subst copy_input_frame, simp)+

lemma copy_input_other:
  "b' \<noteq> b \<Longrightarrow> arrays (copy_input g b i cs) b' = arrays g b'"
  by (induction cs arbitrary: g i) (simp_all add: store_array_def)

lemma copy_input_arrays:
  "i \<le> length (arrays g b) \<Longrightarrow>
   arrays (copy_input g b (int i) cs) b =
     take i (arrays g b) @ charCodes cs @ drop (i + length cs) (arrays g b)"
proof (induction cs arbitrary: g i)
  case Nil
  show ?case by (simp add: charCodes_def)
next
  case (Cons c cs)
  define g' where "g' = store_array g b (int i) (Num (uint c))"
  have xs': "arrays g' b = take i (arrays g b) @ Num (uint c) # drop (Suc i) (arrays g b)"
  proof (cases "i < length (arrays g b)")
    case True
    then show ?thesis
      by (simp add: g'_def array_set_in_range upd_conv_take_nth_drop)
  next
    case False
    with Cons.prems have "i = length (arrays g b)" by simp
    then show ?thesis by (simp add: g'_def array_set_at_end)
  qed
  have "arrays (copy_input g b (int i) (c # cs)) b = arrays (copy_input g' b (int (Suc i)) cs) b"
    by (simp add: g'_def add.commute)
  also have "\<dots> = take (Suc i) (arrays g' b) @ charCodes cs @ drop (Suc i + length cs) (arrays g' b)"
    using Cons.prems by (intro Cons.IH) (simp add: xs')
  also have "\<dots> = take i (arrays g b) @ charCodes (c # cs) @ drop (i + length (c # cs)) (arrays g b)"
    using Cons.prems by (simp add: xs' charCodes_def min_def add.commute)
  finally show ?case .
qed

lemma copy_input_length:
  "length (arrays g a) \<le> length (arrays (copy_input g b i cs) a)"
proof (induction cs arbitrary: g i)
  case Nil
  show ?case by simp
next
  case (Cons c cs)
  have "length (arrays g a) \<le> length (arrays (store_array g b i (Num (uint c))) a)"
    by (simp add: length_array_set)
  also have "\<dots> \<le> length (arrays (copy_input (store_array g b i (Num (uint c))) b (i + 1) cs) a)"
    by (rule Cons.IH)
  finally show ?case by simp
qed

subsection \<open>The input callback and the terminal\<close>

lemma callback_pending:
  assumes "pending (inputState g)" and "buffer (inputState g) = Some b"
  shows "line_input_callback g input =
           clear_pending (signal_length
             (copy_input g b 0 (take (nat (input_length g input)) input)) (input_length g input))"
  using assms by (simp add: line_input_callback_def Let_def)

lemma callback_arrays_other:
  "buffer (inputState g) \<noteq> Some a \<Longrightarrow> arrays (line_input_callback g input) a = arrays g a"
  by (auto simp: line_input_callback_def Let_def clear_pending_def signal_length_def
      copy_input_other split: option.splits)

lemma callback_inputResolver [simp]:
  "inputResolver (line_input_callback g input) = inputResolver g"
  by (simp add: line_input_callback_def Let_def clear_pending_def signal_length_def
      split: option.splits)

lemma callback_arrays_buffer:
  assumes "pending (inputState g)" and "buffer (inputState g) = Some b"
      and "maxLen (inputState g) = int (length (arrays g b))"
  shows "arrays (line_input_callback g input) b =
           charCodes (take (length (arrays g b)) input) @ drop (length input) (arrays g b)"
proof -
  define cs where "cs = take (nat (input_length g input)) input"
  have cs: "cs = take (length (arrays g b)) input"
    using assms(3) by (simp add: cs_def input_length_def min_def)
  have "arrays (line_input_callback g input) b = arrays (copy_input g b 0 cs) b"
    using assms(1,2) by (simp add: callback_pending cs_def clear_pending_def signal_length_def
        split: option.splits)
  also have "\<dots> = charCodes cs @ drop (length cs) (arrays g b)"
    using copy_input_arrays [of 0 g b cs] by simp
  also have "drop (length cs) (arrays g b) = drop (length input) (arrays g b)"
    by (simp add: cs min_def)
  finally show ?thesis by (simp add: cs)
qed

lemma handleCommand_arrays_other:
  "buffer (inputState g) \<noteq> Some a \<Longrightarrow> arrays (handleCommand g input) a = arrays g a"
  by (simp add: handleCommand_def run_callback_def callback_arrays_other
      split: option.splits callback.splits)

lemma handleCommand_resolver [simp]: "inputResolver (handleCommand g input) = None"
  by (simp add: handleCommand_def run_callback_def split: option.splits callback.splits)

lemma handleCommand_idle: "inputResolver g = None \<Longrightarrow> handleCommand g input = g"
  by (simp add: handleCommand_def)

lemma handleCommand_again: "foldl handleCommand (handleCommand g i) is = handleCommand g i"
  by (induction "is") (simp_all add: handleCommand_idle)

subsection \<open>Single reads\<close>

lemma get_char_exhausted:
  "exhausted (streams g ! s) \<Longrightarrow> glk_get_char_stream g s = (Num (- 1), g)"
  by (auto simp: glk_get_char_stream_def exhausted_def Let_def split: option.splits)

lemma get_char_advance:
  assumes "\<not> exhausted (streams g ! s)"
  shows "glk_get_char_stream g s =
           (unit_at_cursor g (streams g ! s),
            update_stream g s (\<lambda>st. st\<lparr>read_count := read_count st + 1, pos := pos st + 1\<rparr>))"
  using assms
  by (auto simp: glk_get_char_stream_def exhausted_def unit_at_cursor_def Let_def array_truthy_def
      split: option.splits)

lemma get_char_cases:
  "glk_get_char_stream g s = (Num (- 1), g) \<or>
   snd (glk_get_char_stream g s) =
     update_stream g s (\<lambda>st. st\<lparr>read_count := read_count st + 1, pos := pos st + 1\<rparr>)"
  by (simp add: glk_get_char_stream_def Let_def split: option.splits)

subsection \<open>String and buffer writes to a stream's data\<close>

lemma push_loop_data:
  "s < length (streams g) \<Longrightarrow>
   push_loop g s xs = update_stream g s (\<lambda>st. st\<lparr>data := data st @ xs\<rparr>)"
proof (induction xs arbitrary: g)
  case Nil
  then show ?case by (simp add: update_stream_def)
next
  case (Cons x xs)
  then show ?case by (simp add: update_stream_def)
qed

lemma push_loop_any:
  "push_loop g s xs = (if s < length (streams g)
      then update_stream g s (\<lambda>st. st\<lparr>data := data st @ xs\<rparr>) else g)"
proof (cases "s < length (streams g)")
  case True
  then show ?thesis by (simp add: push_loop_data)
next
  case False
  then have "push_loop g s xs = g"
    by (induction xs arbitrary: g) (simp_all add: update_stream_def list_update_beyond)
  with False show ?thesis by simp
qed

text \<open>
  On a stream that is neither the main nor the current one, a string or buffer write appends
  to \<open>data\<close> and counts the units, whether or not a fixed buffer is bound to the stream.
\<close>

lemma bulk_write_to_memory_stream:
  assumes "s < length (streams g)" and "s \<noteq> mainStream" and "s \<noteq> currentStream g"
  shows "glk_put_buffer_stream g s xs =
           update_stream g s (\<lambda>st. st\<lparr>data := data st @ xs,
                                        write_count := write_count st + int (length xs)\<rparr>)"
    and "glk_put_string_stream g s t =
           update_stream g s (\<lambda>st. st\<lparr>data := data st @ charCodes t,
                                        write_count := write_count st + int (length t)\<rparr>)"
  using assms
  by (simp_all add: glk_put_buffer_stream_def glk_put_string_stream_def Let_def array_truthy_def
      push_loop_data update_stream_def)

section \<open>Output buffering\<close>

lemma printed_text_append [simp]:
  "printed_text (xs @ ys) = printed_text xs @ printed_text ys"
  by (induction xs rule: printed_text.induct) simp_all

lemma shown_same:
  "terminal g' = terminal g \<Longrightarrow> outputBuffer g' = outputBuffer g \<Longrightarrow> shown g' = shown g"
  by (simp add: shown_def received_def)

lemma shown_append_output [simp]: "shown (append_output g t) = shown g @ t"
  by (simp add: shown_def received_def append_output_def)

lemma shown_update_stream [simp]: "shown (update_stream g s f) = shown g"
  by (rule shown_same) simp_all

lemma shown_store_array [simp]: "shown (store_array g b i v) = shown g"
  by (rule shown_same) simp_all

lemma shown_set_field [simp]: "shown (set_field g r i v) = shown g"
  by (rule shown_same) simp_all

lemma shown_update_window [simp]: "shown (update_window g w f) = shown g"
  by (rule shown_same) (simp_all add: update_window_def)

lemma shown_flush_output [simp]: "shown (flush_output g) = shown g"
  by (simp add: shown_def received_def flush_output_def terminal_print_def)

lemma shown_put_buffer_loop [simp]:
  "shown (put_buffer_loop g b) = shown g @ concat (map fromCharCode b)"
  by (induction b arbitrary: g) simp_all

lemma shown_push_loop [simp]: "shown (push_loop g s b) = shown g"
  by (induction b arbitrary: g) simp_all

lemma shown_fill_loop [simp]: "shown (fill_loop g s a b) = shown g"
  by (induction b arbitrary: g) (simp_all add: Let_def)

lemma shown_put_buffer_uni_loop [simp]:
  "shown (snd (put_buffer_uni_loop g b)) = shown g @ code_points_text b"
  by (induction b arbitrary: g) (simp_all split: option.splits)

lemma shown_get_char [simp]: "shown (snd (glk_get_char_stream g s)) = shown g"
  using get_char_cases [of g s] by auto

lemma shown_get_buffer_loop [simp]: "shown (snd (get_buffer_loop g s b lim i n)) = shown g"
proof (induction g s b lim i n rule: get_buffer_loop.induct)
  case (1 g s b lim i n)
  obtain ch g1 where r: "glk_get_char_stream g s = (ch, g1)" by (cases "glk_get_char_stream g s")
  have g1: "shown g1 = shown g" using shown_get_char [of g s] r by simp
  show ?case
    using "1.IH" [OF _ r [symmetric] refl] g1 r
    by (subst get_buffer_loop.simps) (auto simp: Let_def)
qed

lemma shown_get_line_loop [simp]: "shown (snd (get_line_loop g s b lim i n)) = shown g"
proof (induction g s b lim i n rule: get_line_loop.induct)
  case (1 g s b lim i n)
  obtain ch g1 where r: "glk_get_char_stream g s = (ch, g1)" by (cases "glk_get_char_stream g s")
  have g1: "shown g1 = shown g" using shown_get_char [of g s] r by simp
  show ?case
    using "1.IH" [OF _ r [symmetric] refl] g1 r
    by (subst get_line_loop.simps) (auto simp: Let_def)
qed

lemma shown_callback [simp]: "shown (line_input_callback g input) = shown g"
  by (auto simp: line_input_callback_def Let_def clear_pending_def signal_length_def
      intro!: shown_same split: option.splits)

lemma shown_handleCommand [simp]: "shown (handleCommand g input) = shown g"
proof (cases "inputResolver g")
  case None
  then show ?thesis by (simp add: handleCommand_def)
next
  case (Some cb)
  have "shown (g\<lparr>inputResolver := None\<rparr>) = shown g" by (rule shown_same) simp_all
  with Some show ?thesis by (simp add: handleCommand_def run_callback_def split: callback.splits)
qed

lemma shown_createStream [simp]: "shown (snd (createStream g r)) = shown g"
  by (rule shown_same) (simp_all add: createStream_def)

lemma shown_createWindow [simp]: "shown (snd (createWindow g t r)) = shown g"
  by (rule shown_same) (simp_all add: createWindow_def createStream_def)

lemma shown_terminal_other [simp]:
  "shown (g\<lparr>terminal := terminal g @ [Clear]\<rparr>) = shown g"
  "shown (g\<lparr>terminal := terminal g @ [HandleError t]\<rparr>) = shown g"
  "shown (g\<lparr>terminal := terminal g @ [Print t]\<rparr>) = received g @ t @ outputBuffer g"
  by (simp_all add: shown_def received_def)

lemma shown_frame [simp]:
  "shown (g\<lparr>currentStream := cs\<rparr>) = shown g"
  "shown (g\<lparr>inputState := st\<rparr>) = shown g"
  "shown (g\<lparr>inputResolver := ir\<rparr>) = shown g"
  "shown (g\<lparr>localStorage := ls\<rparr>) = shown g"
  "shown (g\<lparr>refboxes := rb\<rparr>) = shown g"
  "shown (g\<lparr>streams := ss\<rparr>) = shown g"
  "shown (g\<lparr>windows := ws\<rparr>) = shown g"
  by (simp_all add: shown_def received_def)

lemma shown_exit: "shown (glk_exit g) = shown g @ session_ended"
  by (simp add: glk_exit_def terminal_print_def flush_output_def shown_def received_def)

lemma shown_step:
  assumes "in_plane c"
  shows "shown (step J g c) = shown g @ written g c @ exit_line c"
proof (cases c)
  case (Fatal_error msg)
  then show ?thesis
    by (simp add: written_def exit_line_def fatal_error_def terminal_handleError_def)
next
  case Glk_exit
  then show ?thesis by (simp add: written_def exit_line_def shown_exit)
next
  case (Glk_window_open sp m sz wt r)
  then show ?thesis by (simp add: written_def exit_line_def glk_window_open_def)
next
  case (Glk_window_close w res)
  then show ?thesis
    by (simp add: written_def exit_line_def glk_window_close_def Let_def split: option.splits)
next
  case (Glk_window_clear w)
  then show ?thesis
    by (simp add: written_def exit_line_def glk_window_clear_def terminal_clear_def
        split: option.splits)
next
  case (Glk_set_window w)
  then show ?thesis
    by (simp add: written_def exit_line_def glk_set_window_def split: option.splits)
next
  case (Glk_window_get_size w wr hr)
  then show ?thesis
    by (simp add: written_def exit_line_def glk_window_get_size_def set_value_def Let_def
        split: option.splits)
next
  case (Glk_stream_set_current s)
  then show ?thesis by (simp add: written_def exit_line_def glk_stream_set_current_def)
next
  case (Glk_stream_open_file fr fm r)
  have "shown (snd (glk_stream_open_file (JSON_parse J) g fr fm r)) = shown g"
    by (simp add: glk_stream_open_file_def createStream_def Let_def split: option.splits)
  with Glk_stream_open_file show ?thesis by (simp add: written_def exit_line_def)
next
  case (Glk_stream_open_memory b bl fm r)
  have "shown (snd (glk_stream_open_memory g b bl fm r)) = shown g"
    by (simp add: glk_stream_open_memory_def createStream_def Let_def)
  with Glk_stream_open_memory show ?thesis by (simp add: written_def exit_line_def)
next
  case (Glk_stream_close s res)
  then show ?thesis
    by (simp add: written_def exit_line_def glk_stream_close_def Let_def split: option.splits)
next
  case (Glk_stream_set_position s p m)
  then show ?thesis by (simp add: written_def exit_line_def glk_stream_set_position_def)
next
  case (Glk_put_char ch)
  then show ?thesis by (simp add: written_def exit_line_def glk_put_char_def)
next
  case (Glk_put_char_stream s ch)
  then show ?thesis
    by (simp add: written_def exit_line_def glk_put_char_stream_def targets_output_def Let_def
        split: option.splits)
next
  case (Glk_put_string t)
  then show ?thesis by (simp add: written_def exit_line_def glk_put_string_def)
next
  case (Glk_put_string_stream s t)
  then show ?thesis
    by (simp add: written_def exit_line_def glk_put_string_stream_def targets_output_def Let_def)
next
  case (Glk_put_buffer b)
  then show ?thesis by (simp add: written_def exit_line_def glk_put_buffer_def)
next
  case (Glk_put_buffer_stream s b)
  then show ?thesis
    by (simp add: written_def exit_line_def glk_put_buffer_stream_def targets_output_def Let_def
        split: option.splits)
next
  case (Glk_put_char_uni ch)
  then show ?thesis
    by (simp add: written_def exit_line_def glk_put_char_uni_def split: option.splits)
next
  case (Glk_put_char_stream_uni s ch)
  have "fromCodePoint (Num ch) = Some (fromCharCode (Num ch))"
    using assms Glk_put_char_stream_uni by (simp add: in_plane_def fromCodePoint_def fromCharCode_def)
  with Glk_put_char_stream_uni show ?thesis
    by (simp add: written_def exit_line_def glk_put_char_stream_uni_def glk_put_char_stream_def
        targets_output_def Let_def split: option.splits)
next
  case (Glk_put_string_uni t)
  then show ?thesis by (simp add: written_def exit_line_def glk_put_string_uni_def)
next
  case (Glk_put_buffer_uni b)
  then show ?thesis by (simp add: written_def exit_line_def glk_put_buffer_uni_def)
next
  case (Glk_put_jstring t)
  then show ?thesis
    by (simp add: written_def exit_line_def glk_put_jstring_def split: option.splits)
next
  case (Glk_put_jstring_stream s t)
  then show ?thesis
    by (simp add: written_def exit_line_def glk_put_jstring_stream_def targets_output_def Let_def
        split: option.splits)
next
  case (Glk_get_char_stream s)
  then show ?thesis by (simp add: written_def exit_line_def)
next
  case (Glk_get_buffer_stream s b len)
  then show ?thesis by (simp add: written_def exit_line_def glk_get_buffer_stream_def)
next
  case (Glk_get_line_stream s b len)
  then show ?thesis by (simp add: written_def exit_line_def glk_get_line_stream_def)
next
  case (Glk_request_line_event w b n)
  then show ?thesis
    by (simp add: written_def exit_line_def glk_request_line_event_def request_line_def
        waitForInput_def Let_def split: option.splits)
next
  case (Glk_request_char_event w)
  then show ?thesis
    by (simp add: written_def exit_line_def glk_request_char_event_def Let_def split: option.splits)
next
  case (Glk_cancel_line_event w e)
  then show ?thesis
    by (simp add: written_def exit_line_def glk_cancel_line_event_def Let_def split: option.splits)
next
  case (Glk_cancel_char_event w)
  then show ?thesis
    by (simp add: written_def exit_line_def glk_cancel_char_event_def split: option.splits)
next
  case (Glk_select e)
  then show ?thesis by (simp add: written_def exit_line_def glk_select_def Let_def)
next
  case (Glk_select_poll e)
  then show ?thesis by (simp add: written_def exit_line_def glk_select_poll_def)
next
  case Update
  then show ?thesis by (simp add: written_def exit_line_def update_def)
next
  case (HandleCommand command)
  then show ?thesis by (simp add: written_def exit_line_def)
qed

lemma run_append: "run J g (cs @ ds) = run J (run J g cs) ds"
  by (induction cs arbitrary: g) simp_all

lemma shown_run:
  "list_all in_plane cs \<Longrightarrow> shown (run J g cs) = shown g @ written_all J g cs"
  by (induction cs arbitrary: g) (simp_all add: shown_step)

lemma flush_empties: "is_flush c \<Longrightarrow> outputBuffer (step J g c) = []"
  by (cases c)
     (simp_all add: is_flush_def update_def glk_exit_def terminal_print_def
        glk_request_line_event_def glk_request_char_event_def update_window_def Let_def
        split: option.splits)

text \<open>
  Above \<open>0xFFFF\<close> the Unicode stream form writes one code unit, the code point reduced
  modulo \<open>2^16\<close>, where \<open>glk_put_char_uni\<close> writes the surrogate pair.
\<close>

lemma uni_stream_form_above_plane:
  "outputBuffer (glk_put_char_stream_uni
      (createGlk (\<lambda>_. []) (\<lambda>_. RefStruct_new) Map.empty) 0 0x1F600) = [0xF600]
   \<and> outputBuffer (snd (glk_put_char_uni
      (createGlk (\<lambda>_. []) (\<lambda>_. RefStruct_new) Map.empty) 0x1F600)) = [0xD83D, 0xDE00]"
  by (simp add: eval_defs glk_put_char_stream_uni_def glk_put_char_stream_def glk_put_char_uni_def
      append_output_def update_stream_def fromCharCode_def fromCodePoint_def)

text \<open>
  C1, as amended. Over every sequence of calls (with the code points written through
  \<open>glk_put_char_stream_uni\<close> not above \<open>0xFFFF\<close>), what \<open>terminal.print\<close> has received,
  followed by what the output buffer still holds, is what it was before, followed by the
  texts the calls wrote to the currently selected stream, in order, each \<open>glk_exit\<close>
  adding its closing line. Every flush checkpoint leaves the output buffer empty, so after
  a sequence that ends in one, \<open>terminal.print\<close> has received all of it.
\<close>

theorem C1_output_in_order:
  assumes "list_all in_plane cs"
  shows "received (run J g cs) @ outputBuffer (run J g cs)
           = received g @ outputBuffer g @ written_all J g cs
       \<and> (is_flush c \<longrightarrow> outputBuffer (step J g c) = [])
       \<and> (cs \<noteq> [] \<and> is_flush (last cs) \<longrightarrow>
            outputBuffer (run J g cs) = []
            \<and> received (run J g cs) = received g @ outputBuffer g @ written_all J g cs)"
proof -
  have all: "received (run J g cs) @ outputBuffer (run J g cs)
           = received g @ outputBuffer g @ written_all J g cs"
    using shown_run [OF assms, of J g] by (simp add: shown_def)
  have last: "outputBuffer (run J g cs) = []" if "cs \<noteq> []" and "is_flush (last cs)"
  proof -
    have "run J g cs = step J (run J g (butlast cs)) (last cs)"
      using run_append [of J g "butlast cs" "[last cs]"] that(1) by simp
    then show ?thesis using flush_empties [OF that(2)] by simp
  qed
  show ?thesis using all last flush_empties by auto
qed

theorem C1_output_in_order_witness:
  "received (run decimal_json (createGlk (\<lambda>_. []) (\<lambda>_. RefStruct_new) Map.empty)
      [Glk_put_string (literal ''He''), Glk_put_char 108, Glk_put_char_stream 0 108,
       Glk_put_buffer_uni [Num 111], Update]) = literal ''Hello''
   \<and> outputBuffer (run decimal_json (createGlk (\<lambda>_. []) (\<lambda>_. RefStruct_new) Map.empty)
      [Glk_put_string (literal ''He''), Glk_put_char 108, Glk_put_char_stream 0 108,
       Glk_put_buffer_uni [Num 111], Update]) = []"
proof -
  define g where "g = createGlk (\<lambda>_. []) (\<lambda>_. RefStruct_new) Map.empty"
  define cs where "cs = [Glk_put_string (literal ''He''), Glk_put_char 108, Glk_put_char_stream 0 108,
       Glk_put_buffer_uni [Num 111], Update]"
  have h: "list_all in_plane cs" by (simp add: cs_def in_plane_def)
  have f: "cs \<noteq> [] \<and> is_flush (last cs)" by (simp add: cs_def is_flush_def)
  have g0: "received g = []" "outputBuffer g = []" "currentStream g = 0"
    by (simp_all add: g_def received_def eval_defs)
  have cur: "currentStream (step decimal_json (step decimal_json g (Glk_put_string (literal ''He'')))
      (Glk_put_char 108)) = 0"
    by (simp add: g0 glk_put_string_def glk_put_char_def append_output_def)
  have w: "written_all decimal_json g cs = literal ''Hello''"
    by (simp add: cs_def written_def exit_line_def targets_output_def mainStream_def
        fromCharCode_def fromCodePoint_def literal_def)
  from C1_output_in_order [OF h, of decimal_json g Update] f
  have "outputBuffer (run decimal_json g cs) = []
      \<and> received (run decimal_json g cs) = received g @ outputBuffer g @ written_all decimal_json g cs"
    by blast
  then show ?thesis unfolding g_def [symmetric] cs_def [symmetric] by (simp add: g0 w)
qed

text \<open>
  C1 as the specification states it fails at \<open>glk_exit\<close>: after writing \<open>Hello\<close> and calling
  \<open>glk_exit\<close>, \<open>terminal.print\<close> has received the text and the closing line, not the text alone.
\<close>

theorem C1_exit_counterexample:
  "received (run decimal_json (createGlk (\<lambda>_. []) (\<lambda>_. RefStruct_new) Map.empty)
      [Glk_put_string (literal ''Hello''), Glk_exit])
     = literal ''Hello'' @ literal (CHR 0x0A # ''*** Game session ended ***'')
   \<and> received (run decimal_json (createGlk (\<lambda>_. []) (\<lambda>_. RefStruct_new) Map.empty)
      [Glk_put_string (literal ''Hello''), Glk_exit])
     \<noteq> literal ''Hello''"
  by (simp add: eval_defs received_def glk_put_string_def append_output_def glk_exit_def
      terminal_print_def session_ended_def)

section \<open>Line input\<close>



text \<open>
  C3. After a line request on the buffer \<open>b1\<close> and a second request before any input is
  delivered, the request state holds the second request's buffer and maximum length and is
  pending, and the terminal holds one callback. Whatever lines the terminal delivers from
  then on, \<open>b1\<close> stays as it was (where the second buffer is another one); the first line
  delivered is copied into the second buffer and clears the pending flag, and nothing that
  is delivered after it changes anything.
\<close>

theorem C3_second_request_overwrites:
  fixes g :: glk and w1 w2 b2 :: "nat option" and b1 :: nat and n1 n2 :: int
  defines "g2 \<equiv> glk_request_line_event (glk_request_line_event g w1 (Some b1) n1) w2 b2 n2"
  shows "buffer (inputState g2) = b2
       \<and> maxLen (inputState g2) = (case b2 of Some b \<Rightarrow> int (length (arrays g b)) | None \<Rightarrow> 0)
       \<and> pending (inputState g2)
       \<and> inputResolver g2 = Some LineInputCallback
       \<and> (b2 \<noteq> Some b1 \<longrightarrow> (\<forall>inputs. arrays (foldl handleCommand g2 inputs) b1 = arrays g b1))
       \<and> (\<forall>b. b2 = Some b \<longrightarrow>
            arrays (handleCommand g2 input) b
              = charCodes (take (length (arrays g b)) input) @ drop (length input) (arrays g b)
            \<and> \<not> pending (inputState (handleCommand g2 input)))
       \<and> foldl handleCommand (handleCommand g2 input) inputs = handleCommand g2 input"
proof -
  have st: "buffer (inputState g2) = b2"
      "maxLen (inputState g2) = (case b2 of Some b \<Rightarrow> int (length (arrays g b)) | None \<Rightarrow> 0)"
      "pending (inputState g2)" "inputResolver g2 = Some LineInputCallback"
      "arrays g2 = arrays g"
    by (simp_all add: g2_def glk_request_line_event_def cong: option.case_cong)
  have first: "arrays (foldl handleCommand g2 inputs) b1 = arrays g b1" if "b2 \<noteq> Some b1" for inputs
  proof (cases inputs)
    case Nil
    then show ?thesis by (simp add: st)
  next
    case (Cons i "is")
    then show ?thesis
      using that by (simp add: handleCommand_again handleCommand_arrays_other st)
  qed
  have second: "arrays (handleCommand g2 input) b
      = charCodes (take (length (arrays g b)) input) @ drop (length input) (arrays g b)"
    if "b2 = Some b" for b
  proof -
    have "handleCommand g2 input = line_input_callback (g2\<lparr>inputResolver := None\<rparr>) input"
      by (simp add: handleCommand_def st run_callback_def)
    then show ?thesis
      using callback_arrays_buffer [of "g2\<lparr>inputResolver := None\<rparr>" b input] that
      by (simp add: st)
  qed
  have cleared: "\<not> pending (inputState (handleCommand g2 input))" if "b2 = Some b" for b
    using that by
       (simp_all add: handleCommand_def st run_callback_def line_input_callback_def
          Let_def clear_pending_def signal_length_def split: option.splits)
  show ?thesis
    using st(1-4) first second cleared by (simp add: handleCommand_again)
qed

theorem C3_second_request_overwrites_witness:
  "arrays (handleCommand (glk_request_line_event (glk_request_line_event
       (createGlk (\<lambda>_. [Num 0, Num 0, Num 0]) (\<lambda>_. RefStruct_new) Map.empty)
       (Some 0) (Some 1) 0) (Some 0) (Some 2) 0) (literal ''go'')) 1
     = [Num 0, Num 0, Num 0]
   \<and> arrays (handleCommand (glk_request_line_event (glk_request_line_event
       (createGlk (\<lambda>_. [Num 0, Num 0, Num 0]) (\<lambda>_. RefStruct_new) Map.empty)
       (Some 0) (Some 1) 0) (Some 0) (Some 2) 0) (literal ''go'')) 2
     = [Num 103, Num 111, Num 0]"
proof -
  define g where "g = createGlk (\<lambda>_. [Num 0, Num 0, Num 0]) (\<lambda>_. RefStruct_new) Map.empty"
  define g2 where "g2 = glk_request_line_event (glk_request_line_event g (Some 0) (Some 1) 0) (Some 0) (Some 2) 0"
  note C = C3_second_request_overwrites [where g = g and ?w1.0 = "Some 0" and ?b1.0 = 1 and ?n1.0 = 0
      and ?w2.0 = "Some 0" and ?b2.0 = "Some 2" and ?n2.0 = 0 and input = "literal ''go''", folded g2_def]
  have a: "arrays g = (\<lambda>_. [Num 0, Num 0, Num 0])" by (simp add: g_def eval_defs)
  have "\<forall>inputs. arrays (foldl handleCommand g2 inputs) 1 = arrays g 1"
    using C by simp
  then have "arrays (foldl handleCommand g2 [literal ''go'']) 1 = arrays g 1" by (rule spec)
  then have c1: "arrays (handleCommand g2 (literal ''go'')) 1 = [Num 0, Num 0, Num 0]"
    by (simp add: a)
  have "arrays (handleCommand g2 (literal ''go'')) 2
      = charCodes (take (length (arrays g 2)) (literal ''go'')) @ drop (length (literal ''go'')) (arrays g 2)"
    using C by simp
  then have c2: "arrays (handleCommand g2 (literal ''go'')) 2 = [Num 103, Num 111, Num 0]"
    by (simp add: a literal_def charCodes_def)
  show ?thesis using c1 c2 unfolding g2_def g_def by simp
qed

text \<open>
  C10. \<open>glk_cancel_line_event\<close> changes nothing but \<open>windows\<close> and the \<open>RefStruct\<close>s: of the
  windows only the request type and the line buffer of the window given, of the structures
  only field 0 of the event given. The request state is as before, so where a line request
  was pending, a callback after the cancellation still copies the delivered text into the
  registered buffer and writes the copied length into field 2 of the captured event.
\<close>

theorem C10_cancel_line_frame:
  "glk_cancel_line_event g win ev
     = g\<lparr>windows := windows (glk_cancel_line_event g win ev),
           refstructs := refstructs (glk_cancel_line_event g win ev)\<rparr>
   \<and> inputState (glk_cancel_line_event g win ev) = inputState g
   \<and> arrays (glk_cancel_line_event g win ev) = arrays g
   \<and> inputResolver (glk_cancel_line_event g win ev) = inputResolver g
   \<and> length (windows (glk_cancel_line_event g win ev)) = length (windows g)
   \<and> (\<forall>w < length (windows g).
         wintype (windows (glk_cancel_line_event g win ev) ! w) = wintype (windows g ! w)
       \<and> wrock (windows (glk_cancel_line_event g win ev) ! w) = wrock (windows g ! w)
       \<and> str (windows (glk_cancel_line_event g win ev) ! w) = str (windows g ! w)
       \<and> (win \<noteq> Some w \<longrightarrow> windows (glk_cancel_line_event g win ev) ! w = windows g ! w))
   \<and> (\<forall>r i. (ev = Some r \<and> i = 0)
         \<or> array_get (refstructs (glk_cancel_line_event g win ev) r) i = array_get (refstructs g r) i)
   \<and> (pending (inputState g) \<and> buffer (inputState g) = Some b
        \<and> maxLen (inputState g) = int (length (arrays g b)) \<and> event (inputState g) = Some e
      \<longrightarrow> arrays (line_input_callback (glk_cancel_line_event g win ev) input) b
            = charCodes (take (length (arrays g b)) input) @ drop (length input) (arrays g b)
        \<and> array_get (refstructs (line_input_callback (glk_cancel_line_event g win ev) input) e) 2
            = Num (min (int (length input)) (int (length (arrays g b)))))"
proof -
  define g' where "g' = glk_cancel_line_event g win ev"
  have frame: "g' = g\<lparr>windows := windows g', refstructs := refstructs g'\<rparr>"
    by (simp add: g'_def glk_cancel_line_event_def update_window_def set_field_def Let_def
        split: option.splits)
  have same: "inputState g' = inputState g" "arrays g' = arrays g" "inputResolver g' = inputResolver g"
    by (subst frame, simp)+
  have wins: "windows g' = (case win of
                 Some w \<Rightarrow> (windows g)[w := (windows g ! w)\<lparr>input_request_type := None, line_input_buf := None\<rparr>]
               | None \<Rightarrow> windows g)"
    by (simp add: g'_def glk_cancel_line_event_def update_window_def Let_def split: option.splits)
  have rs: "refstructs g' = (case ev of
                 Some r \<Rightarrow> (refstructs g)(r := array_set (refstructs g r) 0 (Num 0))
               | None \<Rightarrow> refstructs g)"
    by (simp add: g'_def glk_cancel_line_event_def update_window_def Let_def split: option.splits)
  have len: "length (windows g') = length (windows g)"
    by (simp add: wins split: option.splits)
  have win_fields: "wintype (windows g' ! w) = wintype (windows g ! w)
       \<and> wrock (windows g' ! w) = wrock (windows g ! w)
       \<and> str (windows g' ! w) = str (windows g ! w)
       \<and> (win \<noteq> Some w \<longrightarrow> windows g' ! w = windows g ! w)" if "w < length (windows g)" for w
    using that by (cases win) (auto simp: wins nth_list_update_any)
  have fields: "(ev = Some r \<and> i = 0) \<or> array_get (refstructs g' r) i = array_get (refstructs g r) i"
    for r i
    by (auto simp: rs array_get_set split: option.splits)
  have later: "arrays (line_input_callback g' input) b
            = charCodes (take (length (arrays g b)) input) @ drop (length input) (arrays g b)
        \<and> array_get (refstructs (line_input_callback g' input) e) 2
            = Num (min (int (length input)) (int (length (arrays g b))))"
    if h: "pending (inputState g)" "buffer (inputState g) = Some b"
       "maxLen (inputState g) = int (length (arrays g b))" "event (inputState g) = Some e"
  proof -
    have "arrays (line_input_callback g' input) b
            = charCodes (take (length (arrays g' b)) input) @ drop (length input) (arrays g' b)"
      using h by (intro callback_arrays_buffer) (simp_all add: same)
    moreover have "array_get (refstructs (line_input_callback g' input) e) 2
            = Num (min (int (length input)) (int (length (arrays g b))))"
      using h by (simp add: callback_pending same clear_pending_def signal_length_def
          array_get_set input_length_def)
    ultimately show ?thesis by (simp add: same)
  qed
  show ?thesis
    unfolding g'_def [symmetric]
    using frame same len win_fields fields later by blast
qed

theorem C10_cancel_line_frame_witness:
  "arrays (line_input_callback (glk_cancel_line_event (glk_select (glk_request_line_event
       (createGlk (\<lambda>_. [Num 0, Num 0, Num 0, Num 0, Num 0, Num 0]) (\<lambda>_. RefStruct_new) Map.empty)
       (Some 0) (Some 7) 0) 3) (Some 0) (Some 3)) (literal ''north'')) 7
     = [Num 110, Num 111, Num 114, Num 116, Num 104, Num 0]
   \<and> array_get (refstructs (line_input_callback (glk_cancel_line_event (glk_select (glk_request_line_event
       (createGlk (\<lambda>_. [Num 0, Num 0, Num 0, Num 0, Num 0, Num 0]) (\<lambda>_. RefStruct_new) Map.empty)
       (Some 0) (Some 7) 0) 3) (Some 0) (Some 3)) (literal ''north'')) 3) 2
     = Num 5
   \<and> inputState (glk_cancel_line_event (glk_select (glk_request_line_event
       (createGlk (\<lambda>_. [Num 0, Num 0, Num 0, Num 0, Num 0, Num 0]) (\<lambda>_. RefStruct_new) Map.empty)
       (Some 0) (Some 7) 0) 3) (Some 0) (Some 3))
     = \<lparr>buffer = Some 7, maxLen = 6, pending = True, event = Some 3\<rparr>"
proof -
  define g where "g = glk_select (glk_request_line_event
       (createGlk (\<lambda>_. [Num 0, Num 0, Num 0, Num 0, Num 0, Num 0]) (\<lambda>_. RefStruct_new) Map.empty)
       (Some 0) (Some 7) 0) 3"
  have st: "inputState g = \<lparr>buffer = Some 7, maxLen = 6, pending = True, event = Some 3\<rparr>"
    by (simp add: g_def eval_defs)
  have a: "arrays g 7 = [Num 0, Num 0, Num 0, Num 0, Num 0, Num 0]"
    by (simp add: g_def eval_defs)
  have h: "pending (inputState g) \<and> buffer (inputState g) = Some 7
        \<and> maxLen (inputState g) = int (length (arrays g 7)) \<and> event (inputState g) = Some 3"
    by (simp add: st a)
  note C = C10_cancel_line_frame [of g "Some 0" "Some 3" 7 3 "literal ''north''"]
  from C have c0: "inputState (glk_cancel_line_event g (Some 0) (Some 3)) = inputState g"
    by blast
  from C h have "arrays (line_input_callback (glk_cancel_line_event g (Some 0) (Some 3)) (literal ''north'')) 7
            = charCodes (take (length (arrays g 7)) (literal ''north''))
                @ drop (length (literal ''north'')) (arrays g 7)
        \<and> array_get (refstructs (line_input_callback (glk_cancel_line_event g (Some 0) (Some 3))
              (literal ''north'')) 3) 2
            = Num (min (int (length (literal ''north''))) (int (length (arrays g 7))))"
    by blast
  then have "arrays (line_input_callback (glk_cancel_line_event g (Some 0) (Some 3)) (literal ''north'')) 7
            = [Num 110, Num 111, Num 114, Num 116, Num 104, Num 0]
        \<and> array_get (refstructs (line_input_callback (glk_cancel_line_event g (Some 0) (Some 3))
              (literal ''north'')) 3) 2 = Num 5"
    by (simp add: a literal_def charCodes_def)
  then show ?thesis using c0 st unfolding g_def by simp
qed

section \<open>Writes to memory streams\<close>

text \<open>
  C4. A memory stream over a four-element array, not the current stream: \<open>glk_put_char_stream\<close>
  stores the unit in the array at the cursor, but \<open>glk_put_buffer_stream\<close> and
  \<open>glk_put_string_stream\<close> leave the array and the cursor as they are and append to the
  stream's \<open>data\<close>.
\<close>

theorem C4_bulk_writes_bypass_buffer:
  "fst (glk_stream_open_memory
          (createGlk (\<lambda>_. [Num 0, Num 0, Num 0, Num 0]) (\<lambda>_. RefStruct_new) Map.empty)
          (Some 7) 4 filemode_Write 0) = 1
   \<and> currentStream (snd (glk_stream_open_memory
          (createGlk (\<lambda>_. [Num 0, Num 0, Num 0, Num 0]) (\<lambda>_. RefStruct_new) Map.empty)
          (Some 7) 4 filemode_Write 0)) = 0
   \<and> arrays (glk_put_char_stream (snd (glk_stream_open_memory
          (createGlk (\<lambda>_. [Num 0, Num 0, Num 0, Num 0]) (\<lambda>_. RefStruct_new) Map.empty)
          (Some 7) 4 filemode_Write 0)) 1 65) 7 = [Num 65, Num 0, Num 0, Num 0]
   \<and> arrays (glk_put_buffer_stream (snd (glk_stream_open_memory
          (createGlk (\<lambda>_. [Num 0, Num 0, Num 0, Num 0]) (\<lambda>_. RefStruct_new) Map.empty)
          (Some 7) 4 filemode_Write 0)) 1 [Num 65, Num 66]) 7 = [Num 0, Num 0, Num 0, Num 0]
   \<and> streams (glk_put_buffer_stream (snd (glk_stream_open_memory
          (createGlk (\<lambda>_. [Num 0, Num 0, Num 0, Num 0]) (\<lambda>_. RefStruct_new) Map.empty)
          (Some 7) 4 filemode_Write 0)) 1 [Num 65, Num 66]) ! 1
       = \<lparr>rock = 0, write_count = 2, read_count = 0, data = [Num 65, Num 66], pos = 0,
          buf = Some 7, buflen = 4, fref = None, fmode = Some filemode_Write\<rparr>
   \<and> arrays (glk_put_string_stream (snd (glk_stream_open_memory
          (createGlk (\<lambda>_. [Num 0, Num 0, Num 0, Num 0]) (\<lambda>_. RefStruct_new) Map.empty)
          (Some 7) 4 filemode_Write 0)) 1 (literal ''AB'')) 7 = [Num 0, Num 0, Num 0, Num 0]
   \<and> streams (glk_put_string_stream (snd (glk_stream_open_memory
          (createGlk (\<lambda>_. [Num 0, Num 0, Num 0, Num 0]) (\<lambda>_. RefStruct_new) Map.empty)
          (Some 7) 4 filemode_Write 0)) 1 (literal ''AB'')) ! 1
       = \<lparr>rock = 0, write_count = 2, read_count = 0, data = [Num 65, Num 66], pos = 0,
          buf = Some 7, buflen = 4, fref = None, fmode = Some filemode_Write\<rparr>"
  by (simp add: eval_defs glk_stream_open_memory_def glk_put_char_stream_def
      glk_put_buffer_stream_def glk_put_string_stream_def update_stream_def store_array_def
      array_truthy_def)

section \<open>The range of the cursor\<close>

lemma stream_ok_mono:
  "stream_ok arrs st \<Longrightarrow> (\<And>b. length (arrs b) \<le> length (arrs' b)) \<Longrightarrow> stream_ok arrs' st"
  by (auto simp: stream_ok_def split: option.splits intro: order_trans)

lemma streams_ok_mono:
  assumes "streams_ok g" and "streams g' = streams g"
      and "\<And>b. length (arrays g b) \<le> length (arrays g' b)"
  shows "streams_ok g'"
  using assms by (auto simp: streams_ok_def list_all_iff intro: stream_ok_mono)

lemma streams_ok_update:
  assumes "streams_ok g" and "s < length (streams g) \<Longrightarrow> stream_ok (arrays g) (f (streams g ! s))"
  shows "streams_ok (update_stream g s f)"
proof (cases "s < length (streams g)")
  case False
  then show ?thesis using assms(1) by (simp add: streams_ok_def list_update_beyond)
next
  case True
  have "set ((streams g)[s := f (streams g ! s)]) \<subseteq> insert (f (streams g ! s)) (set (streams g))"
    by (rule set_update_subset_insert)
  then show ?thesis
    using assms True by (auto simp: streams_ok_def list_all_iff)
qed

lemma streams_ok_store:
  "streams_ok g \<Longrightarrow> streams_ok (store_array g b i v)"
  by (rule streams_ok_mono) (auto simp: length_array_set)

lemma streams_ok_nth:
  "streams_ok g \<Longrightarrow> s < length (streams g) \<Longrightarrow> stream_ok (arrays g) (streams g ! s)"
  by (simp add: streams_ok_def list_all_length)

lemma ok_callback: "streams_ok g \<Longrightarrow> streams_ok (line_input_callback g input)"
proof (rule streams_ok_mono)
  show "streams (line_input_callback g input) = streams g"
    by (simp add: line_input_callback_def Let_def clear_pending_def signal_length_def
        split: option.splits)
  show "length (arrays g b) \<le> length (arrays (line_input_callback g input) b)" for b
    by (simp add: line_input_callback_def Let_def clear_pending_def signal_length_def
        copy_input_length split: option.splits)
qed

lemma ok_handleCommand: "streams_ok g \<Longrightarrow> streams_ok (handleCommand g input)"
proof (cases "inputResolver g")
  case None
  then show "streams_ok g \<Longrightarrow> ?thesis" by (simp add: handleCommand_def)
next
  case (Some cb)
  assume "streams_ok g"
  then have "streams_ok (g\<lparr>inputResolver := None\<rparr>)" by (simp add: streams_ok_def)
  then show ?thesis
    using Some by (simp add: handleCommand_def run_callback_def ok_callback split: callback.splits)
qed

lemma ok_get_char: "streams_ok g \<Longrightarrow> streams_ok (snd (glk_get_char_stream g s))"
proof (cases "exhausted (streams g ! s)")
  case True
  then show "streams_ok g \<Longrightarrow> ?thesis" by (simp add: get_char_exhausted)
next
  case False
  assume ok: "streams_ok g"
  let ?st = "streams g ! s"
  have "streams_ok (update_stream g s (\<lambda>st. st\<lparr>read_count := read_count st + 1, pos := pos st + 1\<rparr>))"
  proof (rule streams_ok_update [OF ok])
    assume "s < length (streams g)"
    then have "stream_ok (arrays g) ?st" by (rule streams_ok_nth [OF ok])
    then show "stream_ok (arrays g) (?st\<lparr>read_count := read_count ?st + 1, pos := pos ?st + 1\<rparr>)"
      using False by (auto simp: stream_ok_def exhausted_def split: option.splits)
  qed
  then show ?thesis by (simp add: get_char_advance [OF False])
qed

lemma ok_get_buffer_loop:
  "streams_ok g \<Longrightarrow> streams_ok (snd (get_buffer_loop g s b lim i n))"
proof (induction g s b lim i n rule: get_buffer_loop.induct)
  case (1 g s b lim i n)
  obtain ch g1 where r: "glk_get_char_stream g s = (ch, g1)" by (cases "glk_get_char_stream g s")
  have g1: "streams_ok g1" using ok_get_char [OF "1.prems", of s] r by simp
  then have g2: "streams_ok (store_array g1 b i ch)" by (rule streams_ok_store)
  show ?case
    using "1.IH" [OF _ r [symmetric] refl _ g2] g1 r "1.prems"
    by (subst get_buffer_loop.simps) (auto simp: Let_def)
qed

lemma ok_get_line_loop:
  "streams_ok g \<Longrightarrow> streams_ok (snd (get_line_loop g s b lim i n))"
proof (induction g s b lim i n rule: get_line_loop.induct)
  case (1 g s b lim i n)
  obtain ch g1 where r: "glk_get_char_stream g s = (ch, g1)" by (cases "glk_get_char_stream g s")
  have g1: "streams_ok g1" using ok_get_char [OF "1.prems", of s] r by simp
  then have g2: "streams_ok (store_array g1 b i ch)" by (rule streams_ok_store)
  show ?case
    using "1.IH" [OF _ r [symmetric] refl _ _ g2] g1 g2 r "1.prems"
    by (subst get_line_loop.simps) (auto simp: Let_def)
qed

lemma ok_count_write:
  "streams_ok g \<Longrightarrow> streams_ok (update_stream g s (\<lambda>st. st\<lparr>write_count := n st\<rparr>))"
proof (rule streams_ok_update)
  assume ok: "streams_ok g" and "s < length (streams g)"
  then have "stream_ok (arrays g) (streams g ! s)" by (rule streams_ok_nth)
  then show "stream_ok (arrays g) ((streams g ! s)\<lparr>write_count := n (streams g ! s)\<rparr>)"
    by (auto simp: stream_ok_def split: option.splits)
qed

lemma ok_push:
  assumes "streams_ok g" and "s < length (streams g) \<Longrightarrow> buf (streams g ! s) = None"
  shows "streams_ok (update_stream g s (\<lambda>st. st\<lparr>data := data st @ xs\<rparr>))"
proof (rule streams_ok_update [OF assms(1)])
  assume s: "s < length (streams g)"
  then have "stream_ok (arrays g) (streams g ! s)" by (rule streams_ok_nth [OF assms(1)])
  then show "stream_ok (arrays g) ((streams g ! s)\<lparr>data := data (streams g ! s) @ xs\<rparr>)"
    using assms(2) [OF s] by (auto simp: stream_ok_def split: option.splits)
qed

lemma ok_put_char_stream: "streams_ok g \<Longrightarrow> streams_ok (glk_put_char_stream g s ch)"
proof -
  assume ok: "streams_ok g"
  let ?st = "streams g ! s"
  have fixed: "streams_ok (update_stream (store_array g b (pos ?st) (Num ch)) s (\<lambda>st. st\<lparr>pos := pos st + 1\<rparr>))"
    if "buf ?st = Some b" and "pos ?st < buflen ?st" for b
  proof (rule streams_ok_update [OF streams_ok_store [OF ok]])
    assume "s < length (streams (store_array g b (pos ?st) (Num ch)))"
    then have "stream_ok (arrays g) ?st" using streams_ok_nth [OF ok, of s] by simp
    then have "stream_ok (arrays g) (?st\<lparr>pos := pos ?st + 1\<rparr>)"
      using that by (auto simp: stream_ok_def split: option.splits)
    then have "stream_ok (arrays (store_array g b (pos ?st) (Num ch))) (?st\<lparr>pos := pos ?st + 1\<rparr>)"
      by (rule stream_ok_mono) (simp add: length_array_set)
    then show "stream_ok (arrays (store_array g b (pos ?st) (Num ch)))
        ((streams (store_array g b (pos ?st) (Num ch)) ! s)\<lparr>pos := pos (streams (store_array g b (pos ?st) (Num ch)) ! s) + 1\<rparr>)"
      by simp
  qed
  have seq: "streams_ok (update_stream g s (\<lambda>st. st\<lparr>data := data st @ [Num ch]\<rparr>))"
    if "buf ?st = None"
    using that by (intro ok_push ok) simp
  show ?thesis
    unfolding glk_put_char_stream_def Let_def
    using ok fixed seq
    by (auto intro!: ok_count_write simp: streams_ok_def [of "append_output g t" for t]
        streams_ok_def [of g] split: option.splits)
qed

lemma ok_append_output: "streams_ok g \<Longrightarrow> streams_ok (append_output g t)"
  by (simp add: streams_ok_def)

lemma ok_put_string_stream:
  assumes "streams_ok g" and "\<not> bulk_write_to_fixed g s"
  shows "streams_ok (glk_put_string_stream g s t)"
proof (cases "targets_output g s")
  case True
  then show ?thesis
    using assms(1)
    by (simp add: glk_put_string_stream_def Let_def targets_output_def ok_count_write ok_append_output)
next
  case False
  then have "buf (streams g ! s) = None" using assms(2) by (simp add: bulk_write_to_fixed_def)
  then show ?thesis
    using False assms(1)
    by (simp add: glk_put_string_stream_def Let_def targets_output_def array_truthy_def
        ok_count_write ok_push)
qed

lemma ok_put_buffer_stream:
  assumes "streams_ok g" and "\<not> bulk_write_to_fixed g s"
  shows "streams_ok (glk_put_buffer_stream g s b)"
proof (cases "targets_output g s")
  case True
  have "streams_ok (put_buffer_loop g b)" using assms(1) by (simp add: streams_ok_def)
  with True show ?thesis
    by (simp add: glk_put_buffer_stream_def Let_def targets_output_def ok_count_write)
next
  case False
  then have "buf (streams g ! s) = None" using assms(2) by (simp add: bulk_write_to_fixed_def)
  then have "streams_ok (push_loop g s b)"
    using assms(1) by (simp add: push_loop_any ok_push)
  with False show ?thesis
    by (simp add: glk_put_buffer_stream_def Let_def targets_output_def array_truthy_def ok_count_write)
qed

lemma ok_put_jstring_stream:
  assumes "streams_ok g" and "case s of Some s' \<Rightarrow> \<not> bulk_write_to_fixed g s' | None \<Rightarrow> True"
  shows "streams_ok (snd (glk_put_jstring_stream g s t))"
proof (cases "\<exists>s' t'. s = Some s' \<and> t = Some t' \<and> t' \<noteq> []")
  case False
  then show ?thesis
    using assms(1) by (auto simp: glk_put_jstring_stream_def split: option.splits)
next
  case True
  then obtain s' t' where st: "s = Some s'" "t = Some t'" "t' \<noteq> []" by blast
  have nb: "\<not> bulk_write_to_fixed g s'" using assms(2) st by simp
  have "streams_ok (glk_put_string_stream g s' t')"
    using assms(1) nb by (rule ok_put_string_stream)
  moreover have "snd (glk_put_jstring_stream g s t) = glk_put_string_stream g s' t'"
    using st by (simp add: glk_put_jstring_stream_def glk_put_string_stream_def Let_def)
  ultimately show ?thesis by simp
qed

lemma ok_set_position:
  assumes "streams_ok g"
      and "s < length (streams g) \<Longrightarrow>
           stream_ok (arrays g) ((streams g ! s)\<lparr>pos := seek_target (streams g ! s) p m\<rparr>)"
  shows "streams_ok (glk_stream_set_position g s p m)"
proof -
  have "glk_stream_set_position g s p m = update_stream g s (\<lambda>st. st\<lparr>pos := seek_target st p m\<rparr>)"
    by (simp add: glk_stream_set_position_def seek_target_def array_truthy_def update_stream_def
        glk_constants)
  then show ?thesis using assms by (simp add: streams_ok_update)
qed

lemma ok_open_memory:
  assumes "streams_ok g"
      and "case b of Some a \<Rightarrow> 0 \<le> bl \<and> bl \<le> int (length (arrays g a)) | None \<Rightarrow> True"
  shows "streams_ok (snd (glk_stream_open_memory g b bl fm r))"
  using assms
  by (auto simp: glk_stream_open_memory_def createStream_def streams_ok_def stream_ok_def
      update_stream_def split: option.splits)

lemma ok_open_file:
  "streams_ok g \<Longrightarrow> streams_ok (snd (glk_stream_open_file parse g fr fm r))"
  by (auto simp: glk_stream_open_file_def createStream_def streams_ok_def stream_ok_def
      update_stream_def Let_def split: option.splits)

lemma ok_createWindow: "streams_ok g \<Longrightarrow> streams_ok (snd (createWindow g t r))"
  by (simp add: createWindow_def createStream_def streams_ok_def stream_ok_def)

lemma ok_createGlk: "streams_ok (createGlk arrs rss store)"
  by (simp add: createGlk_def createWindow_def createStream_def streams_ok_def stream_ok_def)

lemma ok_step:
  assumes "streams_ok g" and "permitted g c"
  shows "streams_ok (step J g c)"
proof (cases c)
  case (Fatal_error msg)
  then show ?thesis
    using assms(1) by (simp add: streams_ok_def fatal_error_def terminal_handleError_def)
next
  case Glk_exit
  then show ?thesis
    using assms(1) by (simp add: streams_ok_def glk_exit_def terminal_print_def)
next
  case (Glk_window_open sp m sz wt r)
  then show ?thesis using assms(1) by (simp add: glk_window_open_def ok_createWindow)
next
  case (Glk_window_close w res)
  then show ?thesis
    using assms(1) by (simp add: streams_ok_def glk_window_close_def Let_def split: option.splits)
next
  case (Glk_window_clear w)
  then show ?thesis
    using assms(1)
    by (simp add: streams_ok_def glk_window_clear_def terminal_clear_def split: option.splits)
next
  case (Glk_set_window w)
  then show ?thesis
    using assms(1) by (simp add: streams_ok_def glk_set_window_def split: option.splits)
next
  case (Glk_window_get_size w wr hr)
  then show ?thesis using assms(1) by (simp add: streams_ok_def)
next
  case (Glk_stream_set_current s)
  then show ?thesis using assms(1) by (simp add: streams_ok_def glk_stream_set_current_def)
next
  case (Glk_stream_open_file fr fm r)
  then show ?thesis using assms(1) by (simp add: ok_open_file)
next
  case (Glk_stream_open_memory b bl fm r)
  then show ?thesis using assms by (simp add: ok_open_memory permitted_def)
next
  case (Glk_stream_close s res)
  then show ?thesis
    using assms(1) by (simp add: streams_ok_def glk_stream_close_def Let_def split: option.splits)
next
  case (Glk_stream_set_position s p m)
  then show ?thesis using assms by (simp add: ok_set_position permitted_def)
next
  case (Glk_put_char ch)
  then show ?thesis using assms(1) by (simp add: glk_put_char_def ok_append_output)
next
  case (Glk_put_char_stream s ch)
  then show ?thesis using assms(1) by (simp add: ok_put_char_stream)
next
  case (Glk_put_string t)
  then show ?thesis using assms(1) by (simp add: glk_put_string_def ok_append_output)
next
  case (Glk_put_string_stream s t)
  then show ?thesis using assms by (simp add: ok_put_string_stream permitted_def)
next
  case (Glk_put_buffer b)
  then show ?thesis using assms(1) by (simp add: streams_ok_def glk_put_buffer_def)
next
  case (Glk_put_buffer_stream s b)
  then show ?thesis using assms by (simp add: ok_put_buffer_stream permitted_def)
next
  case (Glk_put_char_uni ch)
  then show ?thesis
    using assms(1) by (simp add: glk_put_char_uni_def ok_append_output split: option.splits)
next
  case (Glk_put_char_stream_uni s ch)
  then show ?thesis using assms(1) by (simp add: glk_put_char_stream_uni_def ok_put_char_stream)
next
  case (Glk_put_string_uni t)
  then show ?thesis using assms(1) by (simp add: glk_put_string_uni_def ok_append_output)
next
  case (Glk_put_buffer_uni b)
  then show ?thesis using assms(1) by (simp add: streams_ok_def glk_put_buffer_uni_def)
next
  case (Glk_put_jstring t)
  then show ?thesis
    using assms(1) by (simp add: glk_put_jstring_def ok_append_output split: option.splits)
next
  case (Glk_put_jstring_stream s t)
  then show ?thesis using assms by (simp add: ok_put_jstring_stream permitted_def)
next
  case (Glk_get_char_stream s)
  then show ?thesis using assms(1) by (simp add: ok_get_char)
next
  case (Glk_get_buffer_stream s b len)
  then show ?thesis using assms(1) by (simp add: glk_get_buffer_stream_def ok_get_buffer_loop)
next
  case (Glk_get_line_stream s b len)
  then show ?thesis using assms(1) by (simp add: glk_get_line_stream_def ok_get_line_loop)
next
  case (Glk_request_line_event w b n)
  then show ?thesis using assms(1) by (simp add: streams_ok_def glk_request_line_event_def)
next
  case (Glk_request_char_event w)
  then show ?thesis
    using assms(1) by (simp add: streams_ok_def glk_request_char_event_def Let_def split: option.splits)
next
  case (Glk_cancel_line_event w e)
  then show ?thesis
    using assms(1) by (simp add: streams_ok_def glk_cancel_line_event_def Let_def split: option.splits)
next
  case (Glk_cancel_char_event w)
  then show ?thesis
    using assms(1) by (simp add: streams_ok_def glk_cancel_char_event_def split: option.splits)
next
  case (Glk_select e)
  then show ?thesis using assms(1) by (simp add: streams_ok_def glk_select_def Let_def)
next
  case (Glk_select_poll e)
  then show ?thesis using assms(1) by (simp add: streams_ok_def glk_select_poll_def)
next
  case Update
  then show ?thesis using assms(1) by (simp add: streams_ok_def update_def)
next
  case (HandleCommand command)
  then show ?thesis using assms(1) by (simp add: ok_handleCommand)
qed

lemma ok_run: "streams_ok g \<Longrightarrow> permitted_all J g cs \<Longrightarrow> streams_ok (run J g cs)"
  by (induction cs arbitrary: g) (simp_all add: ok_step)

lemma put_char_fixed_drop:
  assumes "stream_ok (arrays g) (streams g ! s)" and "buf (streams g ! s) = Some b"
      and "\<not> targets_output g s"
  shows "length (arrays (glk_put_char_stream g s ch) a) = length (arrays g a)
       \<and> (buflen (streams g ! s) \<le> pos (streams g ! s) \<longrightarrow>
            arrays (glk_put_char_stream g s ch) = arrays g
            \<and> pos (streams (glk_put_char_stream g s ch) ! s) = pos (streams g ! s))"
proof (cases "pos (streams g ! s) < buflen (streams g ! s)")
  case True
  have "0 \<le> pos (streams g ! s)" "pos (streams g ! s) < int (length (arrays g b))"
    using assms(1,2) True by (simp_all add: stream_ok_def)
  then have "length (array_set (arrays g b) (pos (streams g ! s)) (Num ch)) = length (arrays g b)"
    by (simp add: array_set_in_range)
  then show ?thesis
    using True assms(2,3)
    by (simp add: glk_put_char_stream_def Let_def targets_output_def)
next
  case False
  then show ?thesis
    using assms(2,3)
    by (simp add: glk_put_char_stream_def Let_def targets_output_def nth_list_update_any)
qed

text \<open>
  C5, as amended. From a state in which every cursor is in its range, every sequence of
  calls keeps every cursor in its range, provided each seek asks for a position inside the
  range (\<open>glk_stream_set_position\<close> stores what it is asked for), each memory stream is opened
  with a capacity between 0 and the length of its buffer, and no string or buffer is written
  to a stream bound to a fixed buffer. The state \<open>createGlk\<close> builds is such a state. A
  character written to a stream bound to a fixed buffer never changes the length of any
  array, and at or past the capacity it changes neither the arrays nor the cursor.
\<close>

theorem C5_cursor_in_range:
  assumes "streams_ok g" and "permitted_all J g cs"
  shows "streams_ok (run J g cs)
       \<and> streams_ok (createGlk arrs rss store)
       \<and> (s < length (streams g) \<and> buf (streams g ! s) = Some b \<and> \<not> targets_output g s \<longrightarrow>
            length (arrays (glk_put_char_stream g s ch) a) = length (arrays g a)
            \<and> (buflen (streams g ! s) \<le> pos (streams g ! s) \<longrightarrow>
                 arrays (glk_put_char_stream g s ch) = arrays g
                 \<and> pos (streams (glk_put_char_stream g s ch) ! s) = pos (streams g ! s)))"
  using ok_run [OF assms] ok_createGlk put_char_fixed_drop [OF streams_ok_nth [OF assms(1)]]
  by blast

theorem C5_cursor_in_range_witness:
  "streams_ok (run decimal_json (createGlk (\<lambda>_. [Num 0, Num 0]) (\<lambda>_. RefStruct_new) Map.empty)
      [Glk_stream_open_memory (Some 7) 2 filemode_Write 0,
       Glk_put_char_stream 1 65, Glk_put_char_stream 1 66, Glk_put_char_stream 1 67,
       Glk_stream_set_position 1 1 seekmode_Start, Glk_get_char_stream 1, Glk_get_char_stream 1])
   \<and> pos (streams (run decimal_json (createGlk (\<lambda>_. [Num 0, Num 0]) (\<lambda>_. RefStruct_new) Map.empty)
      [Glk_stream_open_memory (Some 7) 2 filemode_Write 0,
       Glk_put_char_stream 1 65, Glk_put_char_stream 1 66, Glk_put_char_stream 1 67,
       Glk_stream_set_position 1 1 seekmode_Start, Glk_get_char_stream 1, Glk_get_char_stream 1]) ! 1) = 2
   \<and> arrays (run decimal_json (createGlk (\<lambda>_. [Num 0, Num 0]) (\<lambda>_. RefStruct_new) Map.empty)
      [Glk_stream_open_memory (Some 7) 2 filemode_Write 0,
       Glk_put_char_stream 1 65, Glk_put_char_stream 1 66, Glk_put_char_stream 1 67,
       Glk_stream_set_position 1 1 seekmode_Start, Glk_get_char_stream 1, Glk_get_char_stream 1]) 7
     = [Num 65, Num 66]"
proof -
  define g where "g = createGlk (\<lambda>_. [Num 0, Num 0]) (\<lambda>_. RefStruct_new) Map.empty"
  define cs where "cs = [Glk_stream_open_memory (Some 7) 2 filemode_Write 0,
       Glk_put_char_stream 1 65, Glk_put_char_stream 1 66, Glk_put_char_stream 1 67,
       Glk_stream_set_position 1 1 seekmode_Start, Glk_get_char_stream 1, Glk_get_char_stream 1]"
  have h1: "streams_ok g"
    by (simp add: g_def eval_defs streams_ok_def stream_ok_def)
  have h2: "permitted_all decimal_json g cs"
    by (simp add: g_def cs_def eval_defs permitted_def stream_ok_def step_defs)
  have ok: "streams_ok (run decimal_json g cs)"
    using C5_cursor_in_range [OF h1 h2] by (rule conjunct1)
  have "pos (streams (run decimal_json g cs) ! 1) = 2 \<and> arrays (run decimal_json g cs) 7 = [Num 65, Num 66]"
    by (simp add: g_def cs_def eval_defs step_defs)
  with ok show ?thesis unfolding g_def cs_def by simp
qed

text \<open>
  C5 as the specification states it fails at \<open>glk_stream_set_position\<close>, which stores the
  position it computes without any clamping: on the main stream, whose data are empty, a
  seek to 5 from the end leaves the cursor at 5, and a seek to -1 from the start at -1.
\<close>

theorem C5_seek_counterexample:
  "data (streams (run decimal_json (createGlk (\<lambda>_. []) (\<lambda>_. RefStruct_new) Map.empty)
      [Glk_stream_set_position 0 5 seekmode_End]) ! 0) = []
   \<and> pos (streams (run decimal_json (createGlk (\<lambda>_. []) (\<lambda>_. RefStruct_new) Map.empty)
      [Glk_stream_set_position 0 5 seekmode_End]) ! 0) = 5
   \<and> pos (streams (run decimal_json (createGlk (\<lambda>_. []) (\<lambda>_. RefStruct_new) Map.empty)
      [Glk_stream_set_position 0 (- 1) seekmode_Start]) ! 0) = - 1
   \<and> \<not> streams_ok (run decimal_json (createGlk (\<lambda>_. []) (\<lambda>_. RefStruct_new) Map.empty)
      [Glk_stream_set_position 0 (- 1) seekmode_Start])"
  by (simp add: eval_defs step_defs streams_ok_def stream_ok_def)

section \<open>Save and restore\<close>

























section \<open>Reading from a stream\<close>

lemma advanced_refl: "advanced g g s 0"
  by (simp add: advanced_def)

lemma advanced_get_char:
  assumes "s < length (streams g)"
  shows "advanced g (snd (glk_get_char_stream g s)) s 0 \<or> advanced g (snd (glk_get_char_stream g s)) s 1"
  using get_char_cases [of g s] assms by (auto simp: advanced_def)

lemma advanced_get_char_value:
  assumes "s < length (streams g)" and "fst (glk_get_char_stream g s) \<noteq> Num (- 1)"
  shows "advanced g (snd (glk_get_char_stream g s)) s 1"
  using get_char_cases [of g s] assms by (auto simp: advanced_def)

lemma advanced_store: "advanced g g' s n \<Longrightarrow> advanced g (store_array g' b i v) s n"
  by (simp add: advanced_def)

lemma advanced_trans: "advanced g g' s n \<Longrightarrow> advanced g' g'' s m \<Longrightarrow> advanced g g'' s (n + m)"
  by (simp add: advanced_def)

lemma get_buffer_loop_advanced:
  "s < length (streams g) \<Longrightarrow>
   \<exists>n. advanced g (snd (get_buffer_loop g s b lim i count)) s n
       \<and> count \<le> fst (get_buffer_loop g s b lim i count)
       \<and> fst (get_buffer_loop g s b lim i count) - count \<le> n"
proof (induction g s b lim i count rule: get_buffer_loop.induct)
  case (1 g s b lim i count)
  show ?case
  proof (cases "i < lim")
    case False
    then show ?thesis
      by (subst (1 2 3) get_buffer_loop.simps) (auto intro: exI [of _ 0] simp: advanced_refl)
  next
    case True
    obtain ch g1 where r: "glk_get_char_stream g s = (ch, g1)" by (cases "glk_get_char_stream g s")
    show ?thesis
    proof (cases "ch = Num (- 1)")
      case True
      have "advanced g g1 s 0 \<or> advanced g g1 s 1"
        using advanced_get_char [OF "1.prems"] r by simp
      then show ?thesis
        using \<open>i < lim\<close> r True
        by (subst (1 2 3) get_buffer_loop.simps) auto
    next
      case False
      have a1: "advanced g g1 s 1"
        using advanced_get_char_value [OF "1.prems"] r False by simp
      define g2 where "g2 = store_array g1 b i ch"
      have a2: "advanced g g2 s 1" using a1 by (simp add: g2_def advanced_store)
      have len: "s < length (streams g2)" using a2 "1.prems" by (simp add: advanced_def)
      obtain n where n: "advanced g2 (snd (get_buffer_loop g2 s b lim (i + 1) (count + 1))) s n"
          "count + 1 \<le> fst (get_buffer_loop g2 s b lim (i + 1) (count + 1))"
          "fst (get_buffer_loop g2 s b lim (i + 1) (count + 1)) - (count + 1) \<le> n"
        using "1.IH" [OF \<open>i < lim\<close> r [symmetric] refl False] len unfolding g2_def by blast
      have unfold: "get_buffer_loop g s b lim i count = get_buffer_loop g2 s b lim (i + 1) (count + 1)"
        using \<open>i < lim\<close> r False by (subst get_buffer_loop.simps) (simp add: g2_def)
      show ?thesis
        unfolding unfold using advanced_trans [OF a2 n(1)] n(2,3)
        by (intro exI [of _ "1 + n"]) auto
    qed
  qed
qed

lemma get_line_loop_advanced:
  "s < length (streams g) \<Longrightarrow>
   \<exists>n. advanced g (snd (get_line_loop g s b lim i count)) s n
       \<and> count \<le> fst (get_line_loop g s b lim i count)
       \<and> fst (get_line_loop g s b lim i count) - count \<le> n"
proof (induction g s b lim i count rule: get_line_loop.induct)
  case (1 g s b lim i count)
  show ?case
  proof (cases "i < lim - 1")
    case False
    then show ?thesis
      by (subst (1 2 3) get_line_loop.simps) (auto intro: exI [of _ 0] simp: advanced_refl)
  next
    case True
    obtain ch g1 where r: "glk_get_char_stream g s = (ch, g1)" by (cases "glk_get_char_stream g s")
    show ?thesis
    proof (cases "ch = Num (- 1)")
      case True
      have "advanced g g1 s 0 \<or> advanced g g1 s 1"
        using advanced_get_char [OF "1.prems"] r by simp
      then show ?thesis
        using \<open>i < lim - 1\<close> r True
        by (subst (1 2 3) get_line_loop.simps) auto
    next
      case False
      have a1: "advanced g g1 s 1"
        using advanced_get_char_value [OF "1.prems"] r False by simp
      define g2 where "g2 = store_array g1 b i ch"
      have a2: "advanced g g2 s 1" using a1 by (simp add: g2_def advanced_store)
      show ?thesis
      proof (cases "ch = Num 10")
        case True
        have "get_line_loop g s b lim i count = (count + 1, g2)"
          using \<open>i < lim - 1\<close> r by (subst get_line_loop.simps) (simp add: g2_def True)
        then show ?thesis using a2 by (intro exI [of _ 1]) simp
      next
        case nl: False
        have len: "s < length (streams g2)" using a2 "1.prems" by (simp add: advanced_def)
        obtain n where n: "advanced g2 (snd (get_line_loop g2 s b lim (i + 1) (count + 1))) s n"
            "count + 1 \<le> fst (get_line_loop g2 s b lim (i + 1) (count + 1))"
            "fst (get_line_loop g2 s b lim (i + 1) (count + 1)) - (count + 1) \<le> n"
          using "1.IH" [OF \<open>i < lim - 1\<close> r [symmetric] refl False nl] len unfolding g2_def by blast
        have unfold: "get_line_loop g s b lim i count = get_line_loop g2 s b lim (i + 1) (count + 1)"
          using \<open>i < lim - 1\<close> r False nl by (subst get_line_loop.simps) (simp add: g2_def)
        show ?thesis
          unfolding unfold using advanced_trans [OF a2 n(1)] n(2,3)
          by (intro exI [of _ "1 + n"]) auto
      qed
    qed
  qed
qed

text \<open>
  C7, as amended. \<open>glk_get_char_stream\<close> on a stream of the adapter: where the cursor is at
  or beyond both the capacity of the bound buffer (if there is one) and the length of the
  data, it returns -1 and changes nothing; otherwise it returns the unit under the cursor and
  moves the cursor and the read counter on by one. \<open>glk_get_buffer_stream\<close> and
  \<open>glk_get_line_stream\<close> move the cursor and the read counter on together, by at least the
  count they return, and return 0, changing nothing, on a stream that has no more data.
\<close>

theorem C7_reads_advance_or_sentinel:
  assumes "s < length (streams g)"
  shows "(if exhausted (streams g ! s) then glk_get_char_stream g s = (Num (- 1), g)
          else fst (glk_get_char_stream g s) = unit_at_cursor g (streams g ! s)
             \<and> advanced g (snd (glk_get_char_stream g s)) s 1)
       \<and> (\<exists>n. advanced g (snd (glk_get_buffer_stream g s b len)) s n
              \<and> 0 \<le> fst (glk_get_buffer_stream g s b len)
              \<and> fst (glk_get_buffer_stream g s b len) \<le> n)
       \<and> (\<exists>n. advanced g (snd (glk_get_line_stream g s b len)) s n
              \<and> 0 \<le> fst (glk_get_line_stream g s b len)
              \<and> fst (glk_get_line_stream g s b len) \<le> n)
       \<and> (exhausted (streams g ! s) \<longrightarrow>
              glk_get_buffer_stream g s b len = (0, g) \<and> glk_get_line_stream g s b len = (0, g))"
proof -
  have single: "if exhausted (streams g ! s) then glk_get_char_stream g s = (Num (- 1), g)
          else fst (glk_get_char_stream g s) = unit_at_cursor g (streams g ! s)
             \<and> advanced g (snd (glk_get_char_stream g s)) s 1"
    using assms by (simp add: get_char_exhausted get_char_advance advanced_def)
  have bulk: "\<exists>n. advanced g (snd (glk_get_buffer_stream g s b len)) s n
              \<and> 0 \<le> fst (glk_get_buffer_stream g s b len)
              \<and> fst (glk_get_buffer_stream g s b len) \<le> n"
    using get_buffer_loop_advanced [OF assms, of b "read_limit g b len" 0 0]
    by (simp add: glk_get_buffer_stream_def)
  have line: "\<exists>n. advanced g (snd (glk_get_line_stream g s b len)) s n
              \<and> 0 \<le> fst (glk_get_line_stream g s b len)
              \<and> fst (glk_get_line_stream g s b len) \<le> n"
    using get_line_loop_advanced [OF assms, of b "read_limit g b len" 0 0]
    by (simp add: glk_get_line_stream_def)
  have end1: "glk_get_buffer_stream g s b len = (0, g)" if "exhausted (streams g ! s)"
    unfolding glk_get_buffer_stream_def
    by (subst get_buffer_loop.simps) (simp add: get_char_exhausted [OF that])
  have end2: "glk_get_line_stream g s b len = (0, g)" if "exhausted (streams g ! s)"
    unfolding glk_get_line_stream_def
    by (subst get_line_loop.simps) (simp add: get_char_exhausted [OF that])
  show ?thesis using single bulk line end1 end2 by blast
qed

theorem C7_reads_advance_or_sentinel_witness:
  "glk_get_char_stream (createGlk (\<lambda>_. [Num 65, Num 66]) (\<lambda>_. RefStruct_new) Map.empty) 0
     = (Num (- 1), createGlk (\<lambda>_. [Num 65, Num 66]) (\<lambda>_. RefStruct_new) Map.empty)
   \<and> fst (glk_get_char_stream (snd (glk_stream_open_memory
         (createGlk (\<lambda>_. [Num 65, Num 66]) (\<lambda>_. RefStruct_new) Map.empty) (Some 7) 2 2 0)) 1)
     = Num 65
   \<and> pos (streams (snd (glk_get_char_stream (snd (glk_stream_open_memory
         (createGlk (\<lambda>_. [Num 65, Num 66]) (\<lambda>_. RefStruct_new) Map.empty) (Some 7) 2 2 0)) 1)) ! 1)
     = 1
   \<and> read_count (streams (snd (glk_get_char_stream (snd (glk_stream_open_memory
         (createGlk (\<lambda>_. [Num 65, Num 66]) (\<lambda>_. RefStruct_new) Map.empty) (Some 7) 2 2 0)) 1)) ! 1)
     = 1"
proof -
  define g where "g = createGlk (\<lambda>_. [Num 65, Num 66]) (\<lambda>_. RefStruct_new) Map.empty"
  define g1 where "g1 = snd (glk_stream_open_memory g (Some 7) 2 2 0)"
  have g: "streams g = [\<lparr>rock = 201, write_count = 0, read_count = 0, data = [], pos = 0,
            buf = None, buflen = 0, fref = None, fmode = None\<rparr>]"
    by (simp add: g_def eval_defs)
  have g1: "streams g1 = [\<lparr>rock = 201, write_count = 0, read_count = 0, data = [], pos = 0,
            buf = None, buflen = 0, fref = None, fmode = None\<rparr>,
          \<lparr>rock = 0, write_count = 0, read_count = 0, data = [], pos = 0,
            buf = Some 7, buflen = 2, fref = None, fmode = Some 2\<rparr>]"
      "arrays g1 7 = [Num 65, Num 66]"
    by (simp_all add: g1_def g_def eval_defs glk_stream_open_memory_def)
  have e0: "exhausted (streams g ! 0)" by (simp add: g exhausted_def)
  have e1: "\<not> exhausted (streams g1 ! 1)" by (simp add: g1 exhausted_def)
  have l0: "0 < length (streams g)" by (simp add: g)
  have l1: "1 < length (streams g1)" by (simp add: g1)
  have "glk_get_char_stream g 0 = (Num (- 1), g)"
    using C7_reads_advance_or_sentinel [OF l0, of 7 None] e0 by simp
  moreover have "fst (glk_get_char_stream g1 1) = unit_at_cursor g1 (streams g1 ! 1)
       \<and> advanced g1 (snd (glk_get_char_stream g1 1)) 1 1"
    using C7_reads_advance_or_sentinel [OF l1, of 7 None] e1 by simp
  ultimately show ?thesis
    unfolding g1_def [symmetric] g_def [symmetric]
    by (simp add: advanced_def unit_at_cursor_def g1 array_get_def)
qed

text \<open>
  C7 as the specification states it fails at the end of the data: a read there returns the
  sentinel, but it moves neither the cursor nor the read counter (both stay 0 on the main
  stream, whose data are empty), and the bulk read returns the count 0.
\<close>

theorem C7_end_of_data_counterexample:
  "fst (glk_get_char_stream (createGlk (\<lambda>_. [Num 0, Num 0]) (\<lambda>_. RefStruct_new) Map.empty) 0)
     = Num (- 1)
   \<and> pos (streams (snd (glk_get_char_stream
         (createGlk (\<lambda>_. [Num 0, Num 0]) (\<lambda>_. RefStruct_new) Map.empty) 0)) ! 0) = 0
   \<and> pos (streams (createGlk (\<lambda>_. [Num 0, Num 0]) (\<lambda>_. RefStruct_new) Map.empty) ! 0) = 0
   \<and> read_count (streams (snd (glk_get_char_stream
         (createGlk (\<lambda>_. [Num 0, Num 0]) (\<lambda>_. RefStruct_new) Map.empty) 0)) ! 0) = 0
   \<and> read_count (streams (createGlk (\<lambda>_. [Num 0, Num 0]) (\<lambda>_. RefStruct_new) Map.empty) ! 0) = 0
   \<and> glk_get_buffer_stream (createGlk (\<lambda>_. [Num 0, Num 0]) (\<lambda>_. RefStruct_new) Map.empty) 0 7 None
     = (0, createGlk (\<lambda>_. [Num 0, Num 0]) (\<lambda>_. RefStruct_new) Map.empty)"
  by (simp add: eval_defs glk_get_char_stream_def glk_get_buffer_stream_def read_limit_def
      get_buffer_loop.simps [of _ _ _ 2])

section \<open>Capability queries\<close>

text \<open>
  C8. \<open>glk_gestalt\<close> is a function of its selector alone: whatever the value argument,
  the character-output selector (2) answers 2 (exact print), the line-input selector (3)
  and the Unicode selector (15) answer 1, and every other selector answers 0.
\<close>

theorem C8_gestalt_answers:
  "glk_gestalt gestalt_CharOutput v = 2
   \<and> glk_gestalt gestalt_LineInput v = 1
   \<and> glk_gestalt gestalt_Unicode v = 1
   \<and> (sel \<notin> {gestalt_CharOutput, gestalt_LineInput, gestalt_Unicode} \<longrightarrow> glk_gestalt sel v = 0)
   \<and> glk_gestalt sel v = glk_gestalt sel v'"
  by (simp add: glk_gestalt_def glk_constants)

theorem C8_gestalt_answers_witness:
  "glk_gestalt 2 Undefined = 2 \<and> glk_gestalt 3 (Num 7) = 1 \<and> glk_gestalt 15 Undefined = 1
   \<and> glk_gestalt 0x1100 Undefined = 0 \<and> glk_gestalt (- 1) Undefined = 0"
  using C8_gestalt_answers [of Undefined "0x1100" Undefined]
        C8_gestalt_answers [of "Num 7" "- 1" Undefined]
  by (simp add: glk_constants)

section \<open>Events\<close>

text \<open>
  C9. For every event structure \<open>e\<close> and every state, \<open>glk_select\<close> records \<open>e\<close> in
  \<open>inputState.event\<close> and writes into it the event kind \<open>evtype_LineInput\<close>, the main window,
  length 0 and terminator 0; \<open>glk_select_poll\<close> writes the kind \<open>evtype_None\<close>, whatever the
  state.
\<close>

theorem C9_select_and_poll:
  "event (inputState (glk_select g e)) = Some e
   \<and> array_get (refstructs (glk_select g e) e) 0 = Num evtype_LineInput
   \<and> array_get (refstructs (glk_select g e) e) 1 = WindowRef mainWindow
   \<and> array_get (refstructs (glk_select g e) e) 2 = Num 0
   \<and> array_get (refstructs (glk_select g e) e) 3 = Num 0
   \<and> array_get (refstructs (glk_select_poll g e) e) 0 = Num evtype_None"
  by (simp add: glk_select_def glk_select_poll_def Let_def array_get_set)

theorem C9_select_and_poll_witness:
  "refstructs (glk_select (createGlk (\<lambda>_. []) (\<lambda>_. [Num 9, Num 9, Num 9, Num 9]) Map.empty) 5) 5
     = [Num 3, WindowRef 0, Num 0, Num 0]
   \<and> refstructs (glk_select_poll (createGlk (\<lambda>_. []) (\<lambda>_. [Num 9, Num 9, Num 9, Num 9]) Map.empty) 5) 5
     = [Num 0, Num 9, Num 9, Num 9]"
  using C9_select_and_poll [of "createGlk (\<lambda>_. []) (\<lambda>_. [Num 9, Num 9, Num 9, Num 9]) Map.empty" 5]
  by (simp add: glk_select_def glk_select_poll_def createGlk_def createWindow_def createStream_def
      Let_def array_set_def glk_constants mainWindow_def)

end
